theory Spec2Isabelle
  imports Complex_Main
begin

section \<open>Data model (src/src/App.tsx, src/src/lib/supabase.ts)\<close>

text \<open>
  The status of a stop is the union type \<^verbatim>\<open>'planned' | 'visited' | 'skipped'\<close> of
  \<^verbatim>\<open>toggleStatus\<close>'s second parameter.
\<close>

datatype status = planned | visited | skipped

subsection \<open>Numbers\<close>

text \<open>
  A JavaScript number is an IEEE-754 binary64 value: \<open>Finite x\<close> is the finite double whose
  exact value is the rational \<open>x\<close> (the two zeros are not told apart: \<^verbatim>\<open>-0 || 0\<close> is 0 and
  no sum below is \<^verbatim>\<open>-0\<close>), besides the two infinities and NaN.
\<close>

datatype number = Finite rat | PosInfinity | NegInfinity | NaN

text \<open>
  The operator \<^verbatim>\<open>+\<close> on numbers: the exact sum, rounded to the nearest double, ties to the
  even significand. \<open>bits n\<close> is the length of \<open>n\<close> in binary and \<open>ilog2 x\<close> the exponent \<open>e\<close>
  with \<open>2^e \<le> x < 2^(e+1)\<close> of a positive \<open>x\<close>. A double has a significand of 53 bits, so the
  spacing of the doubles around \<open>x\<close> is \<open>2^(e-52)\<close>, and \<open>2^(-1074)\<close> below the smallest normal
  exponent -1022; a result that rounds to \<open>2^1024\<close> or more is infinite.
\<close>

definition pow2 :: "int \<Rightarrow> rat" where
  "pow2 e = (if 0 \<le> e then 2 ^ nat e else 1 / 2 ^ nat (- e))"

function bits :: "int \<Rightarrow> int" where
  "bits n = (if n \<le> 0 then 0 else 1 + bits (n div 2))"
  by pat_completeness auto
termination
  by (relation "measure nat") auto

declare bits.simps [simp del]

definition ilog2 :: "rat \<Rightarrow> int" where
  "ilog2 x = (if 1 \<le> x then bits \<lfloor>x\<rfloor> - 1 else - bits (\<lceil>1 / x\<rceil> - 1))"

definition round_half_even :: "rat \<Rightarrow> int" where
  "round_half_even r =
     (let f = \<lfloor>r\<rfloor>; d = r - of_int f
      in if d < 1 / 2 then f else if 1 / 2 < d then f + 1 else if even f then f else f + 1)"

definition round_double :: "rat \<Rightarrow> number" where
  "round_double x =
     (if x = 0 then Finite 0
      else
        (let e = max (ilog2 \<bar>x\<bar>) (- 1022);
             ulp = pow2 (e - 52);
             m = of_int (round_half_even (\<bar>x\<bar> / ulp)) * ulp
         in if pow2 1024 \<le> m then (if 0 < x then PosInfinity else NegInfinity)
            else Finite (sgn x * m)))"

fun add_number :: "number \<Rightarrow> number \<Rightarrow> number" where
  "add_number NaN y = NaN"
| "add_number x NaN = NaN"
| "add_number PosInfinity NegInfinity = NaN"
| "add_number NegInfinity PosInfinity = NaN"
| "add_number PosInfinity y = PosInfinity"
| "add_number NegInfinity y = NegInfinity"
| "add_number x PosInfinity = PosInfinity"
| "add_number x NegInfinity = NegInfinity"
| "add_number (Finite a) (Finite b) = round_double (a + b)"

text \<open>\<^verbatim>\<open>x || 0\<close> on a number \<open>x\<close>: the falsy numbers are 0 and NaN.\<close>

definition orZero :: "number \<Rightarrow> number" where
  "orZero x = (if x = NaN \<or> x = Finite 0 then Finite 0 else x)"

subsection \<open>Stops, JSON values, remote answers and the state\<close>

text \<open>
  A stop, with the columns of the table \<^verbatim>\<open>stops\<close> (supabase.ts) and the fields set by
  \<^verbatim>\<open>addStop\<close>. The field \<^verbatim>\<open>id\<close> is named \<open>id'\<close> and \<^verbatim>\<open>notes\<close> is named \<open>notes'\<close>
  (the plain names are taken in Isabelle). \<^verbatim>\<open>cost\<close> is a JavaScript number that the
  table allows to be NULL: \<open>None\<close> is a missing cost. \<^verbatim>\<open>dateTime\<close> is the text
  \<^verbatim>\<open>`${date}T${time}`\<close>. A string is held as the list of the bytes of its UTF-8 form
  (one \<open>char\<close> for an ASCII character).
\<close>

record Stop =
  id' :: string
  title :: string
  address :: string
  dateTime :: string
  notes' :: string
  cost :: "number option"
  status :: status
  order :: nat

text \<open>A JSON value: what \<^verbatim>\<open>JSON.parse\<close> returns and \<^verbatim>\<open>aiInsights\<close> holds.\<close>

datatype json =
  JNull
| JBool bool
| JNum rat
| JStr string
| JArr "json list"
| JObj "(string \<times> json) list"

text \<open>
  What a \<^verbatim>\<open>throw\<close> carries: the \<^verbatim>\<open>error\<close> member of a Supabase reply, a rejected
  promise (network, authentication, server), or the \<^verbatim>\<open>SyntaxError\<close> of \<^verbatim>\<open>JSON.parse\<close>.
\<close>

datatype js_error = SupabaseError | NetworkError | SyntaxError

text \<open>
  How a function body or an \<^verbatim>\<open>async\<close> function ends: normally, or by an exception
  that nothing caught. The state reached is returned in both cases, since the writes made
  before a \<^verbatim>\<open>throw\<close> stay.
\<close>

datatype completion = Normal | Thrown js_error

text \<open>
  The answer of an awaited remote call. \<open>Rejects e\<close>: the promise rejects.
  \<open>Resolves d err\<close>: it resolves to \<^verbatim>\<open>{ data, error }\<close>, with \<open>d = None\<close> for a
  \<^verbatim>\<open>data\<close> of \<^verbatim>\<open>null\<close> and \<open>err = None\<close> for an \<^verbatim>\<open>error\<close> of \<^verbatim>\<open>null\<close>.
\<close>

datatype 'a reply = Rejects js_error | Resolves "'a option" "js_error option"

text \<open>
  The answer of \<^verbatim>\<open>ai.models.generateContent\<close>: a rejection, or a response whose
  \<^verbatim>\<open>text\<close> is a string or \<^verbatim>\<open>undefined\<close> (\<open>None\<close>).
\<close>

datatype ai_reply = AiRejects js_error | AiResponse "string option"

text \<open>
  The effects on the outside world, in the order the code performs them:
  \<^verbatim>\<open>localStorage.setItem('kitatour_stops', ...)\<close>, \<^verbatim>\<open>localStorage.setItem(cacheKey, ...)\<close>,
  the three Supabase requests, the generation request (with the title and the address put
  into the prompt) and \<^verbatim>\<open>console.error\<close>.
\<close>

datatype event =
  SetItemStops "Stop list"
| SetItemAi string json
| Select
| Upsert "Stop list"
| Delete string
| GenerateContent string string
| ConsoleError js_error

text \<open>
  The state of the component \<^verbatim>\<open>App\<close>: its React state variables, the module constant
  \<^verbatim>\<open>supabase\<close> (\<open>True\<close> when a client was created, \<open>False\<close> when it is \<^verbatim>\<open>null\<close>), and
  \<^verbatim>\<open>localStorage\<close>. \<open>kitatour_stops\<close> is the entry under the key
  \<^verbatim>\<open>'kitatour_stops'\<close> and \<open>ai_cache\<close> maps a stop id to the entry under
  \<^verbatim>\<open>`ai_cache_${id}`\<close>; an entry is held as the value its JSON text denotes
  (\<^verbatim>\<open>JSON.parse (JSON.stringify v)\<close> is taken to be \<open>v\<close>), \<open>None\<close> is \<^verbatim>\<open>getItem\<close>
  returning \<^verbatim>\<open>null\<close>. \<open>trace\<close> records the effects performed so far.
\<close>

record App =
  stops :: "Stop list"
  isAdding :: bool
  isLoading :: bool
  isOnline :: bool
  aiInsights :: json
  isLoadingAi :: bool
  supabase :: bool
  kitatour_stops :: "Stop list option"
  ai_cache :: "string \<rightharpoonup> json"
  trace :: "event list"

text \<open>
  The fields of the form submitted to \<^verbatim>\<open>addStop\<close> (the inputs named title, address,
  date, time, cost and notes of the form at lines 783-850), as \<^verbatim>\<open>formData.get\<close> returns
  them: every input is in the form, so each is a string, empty when nothing was typed.
\<close>

record FormData =
  fd_title :: string
  fd_address :: string
  fd_date :: string
  fd_time :: string
  fd_cost :: string
  fd_notes :: string

section \<open>Sorting by date\<close>

text \<open>
  \<^verbatim>\<open>parseISO\<close> (date-fns) is a parameter \<open>parseISO :: string \<Rightarrow> int option\<close>: the time
  value of the date in milliseconds, \<open>None\<close> for an Invalid Date.
  \<^verbatim>\<open>compareAsc\<close> (date-fns) returns -1, 1, or the difference itself when it is 0 or
  NaN; \<open>None\<close> is NaN.
\<close>

definition compareAsc :: "int option \<Rightarrow> int option \<Rightarrow> int option" where
  "compareAsc dateLeft dateRight =
     (case (dateLeft, dateRight) of
        (Some l, Some r) \<Rightarrow>
          (let diff = l - r in
           if diff < 0 then Some (- 1) else if diff > 0 then Some 1 else Some diff)
      | _ \<Rightarrow> None)"

text \<open>The comparator \<^verbatim>\<open>(a, b) => compareAsc(parseISO(a.dateTime), parseISO(b.dateTime))\<close>.\<close>

definition byDateTime :: "(string \<Rightarrow> int option) \<Rightarrow> Stop \<Rightarrow> Stop \<Rightarrow> int option" where
  "byDateTime parseISO a b = compareAsc (parseISO (dateTime a)) (parseISO (dateTime b))"

text \<open>
  \<^verbatim>\<open>Array.prototype.sort\<close> with a comparator. ECMAScript's SortCompare reads a NaN
  result as +0, and the sort is stable. It is modelled as the stable insertion sort; for
  a consistent comparator every stable sort returns this list. With an Invalid Date among
  the elements the comparator answers NaN for every comparison with it and is not
  consistent, and ECMAScript leaves the order to the implementation. On the collections
  evaluated below (one Invalid Date between two valid dates, or after one) the model
  compares only neighbours, as the run detection of V8's sort does, each such comparison
  is with the Invalid Date, and the array is left as it is.
\<close>

definition sortCompare :: "('a \<Rightarrow> 'a \<Rightarrow> int option) \<Rightarrow> 'a \<Rightarrow> 'a \<Rightarrow> int" where
  "sortCompare comparefn x y = (case comparefn x y of None \<Rightarrow> 0 | Some v \<Rightarrow> v)"

fun insert_sorted :: "('a \<Rightarrow> 'a \<Rightarrow> int option) \<Rightarrow> 'a \<Rightarrow> 'a list \<Rightarrow> 'a list" where
  "insert_sorted comparefn x [] = [x]"
| "insert_sorted comparefn x (y # ys) =
     (if sortCompare comparefn x y \<le> 0 then x # y # ys
      else y # insert_sorted comparefn x ys)"

definition sort_js :: "('a \<Rightarrow> 'a \<Rightarrow> int option) \<Rightarrow> 'a list \<Rightarrow> 'a list" where
  "sort_js comparefn xs = foldr (insert_sorted comparefn) xs []"

section \<open>Persistence: syncData and loadData\<close>

definition emit :: "event \<Rightarrow> App \<Rightarrow> App" where
  "emit e st = st\<lparr>trace := trace st @ [e]\<rparr>"

text \<open>
  A \<^verbatim>\<open>catch (err) { console.error(..., err) }\<close> block around a body: an exception of
  the body is logged and the function goes on normally.
\<close>

fun catch_log :: "completion \<times> App \<Rightarrow> completion \<times> App" where
  "catch_log (Thrown err, st) = (Normal, emit (ConsoleError err) st)"
| "catch_log (Normal, st) = (Normal, st)"

text \<open>
  The error that \<^verbatim>\<open>if (error) throw error\<close> throws on a reply, if any, and what the
  \<^verbatim>\<open>catch\<close> block then writes to the console.
\<close>

fun failure_of :: "'a reply \<Rightarrow> js_error option" where
  "failure_of (Rejects err) = Some err"
| "failure_of (Resolves d err) = err"

definition error_log :: "js_error option \<Rightarrow> event list" where
  "error_log e = (case e of None \<Rightarrow> [] | Some err \<Rightarrow> [ConsoleError err])"

text \<open>
  The body of the \<^verbatim>\<open>try\<close> in \<^verbatim>\<open>syncData\<close>: the upsert of all stops is sent, then
  \<^verbatim>\<open>if (error) throw error\<close>.
\<close>

fun sync_try :: "Stop list \<Rightarrow> unit reply \<Rightarrow> App \<Rightarrow> completion \<times> App" where
  "sync_try updatedStops (Rejects err) st = (Thrown err, emit (Upsert updatedStops) st)"
| "sync_try updatedStops (Resolves d (Some err)) st = (Thrown err, emit (Upsert updatedStops) st)"
| "sync_try updatedStops (Resolves d None) st = (Normal, emit (Upsert updatedStops) st)"

definition syncData :: "Stop list \<Rightarrow> unit reply \<Rightarrow> App \<Rightarrow> completion \<times> App" where
  "syncData updatedStops r st =
     (let st1 = st\<lparr>stops := updatedStops\<rparr>;
          st2 = emit (SetItemStops updatedStops) (st1\<lparr>kitatour_stops := Some updatedStops\<rparr>)
      in if isOnline st2 \<and> supabase st2 then catch_log (sync_try updatedStops r st2)
         else (Normal, st2))"

text \<open>
  The body of the \<^verbatim>\<open>try\<close> in \<^verbatim>\<open>loadData\<close>: select all rows, \<^verbatim>\<open>if (error) throw error\<close>,
  \<^verbatim>\<open>if (data) { setStops(data); localStorage.setItem(...) }\<close> (an array, also the empty
  one, is truthy).
\<close>

fun load_try :: "Stop list reply \<Rightarrow> App \<Rightarrow> completion \<times> App" where
  "load_try (Rejects err) st = (Thrown err, emit Select st)"
| "load_try (Resolves d (Some err)) st = (Thrown err, emit Select st)"
| "load_try (Resolves None None) st = (Normal, emit Select st)"
| "load_try (Resolves (Some data) None) st =
     (Normal, emit (SetItemStops data)
        ((emit Select st)\<lparr>stops := data, kitatour_stops := Some data\<rparr>))"

definition loadData :: "Stop list reply \<Rightarrow> App \<Rightarrow> completion \<times> App" where
  "loadData r st =
     (let st1 = st\<lparr>isLoading := True\<rparr>;
          st2 = (case kitatour_stops st1 of
                   Some cached \<Rightarrow> st1\<lparr>stops := cached\<rparr>
                 | None \<Rightarrow> st1);
          (c, st3) = (if isOnline st2 \<and> supabase st2 then catch_log (load_try r st2)
                      else (Normal, st2))
      in (c, st3\<lparr>isLoading := False\<rparr>))"

section \<open>Mutations: addStop, toggleStatus, deleteStop\<close>

text \<open>
  \<^verbatim>\<open>Number(formData.get('cost')) || 0\<close>: \<^verbatim>\<open>Number\<close> is a parameter
  \<open>toNumber :: string \<Rightarrow> number\<close>; NaN and 0 both give 0.
  \<^verbatim>\<open>crypto.randomUUID()\<close> is the parameter \<open>uuid\<close>.
\<close>

definition newStop :: "(string \<Rightarrow> number) \<Rightarrow> string \<Rightarrow> FormData \<Rightarrow> App \<Rightarrow> Stop" where
  "newStop toNumber uuid formData st =
     \<lparr> id' = uuid,
       title = fd_title formData,
       address = fd_address formData,
       dateTime = fd_date formData @ ''T'' @ fd_time formData,
       notes' = fd_notes formData,
       cost = Some (orZero (toNumber (fd_cost formData))),
       status = planned,
       order = length (stops st) \<rparr>"

definition addStop ::
  "(string \<Rightarrow> int option) \<Rightarrow> (string \<Rightarrow> number) \<Rightarrow> string \<Rightarrow> FormData \<Rightarrow> unit reply \<Rightarrow> App
     \<Rightarrow> completion \<times> App" where
  "addStop parseISO toNumber uuid formData r st =
     (let updated = sort_js (byDateTime parseISO) (stops st @ [newStop toNumber uuid formData st]);
          (c, st1) = syncData updated r st
      in case c of
           Normal \<Rightarrow> (Normal, st1\<lparr>isAdding := False\<rparr>)
         | Thrown err \<Rightarrow> (Thrown err, st1))"

text \<open>
  \<^verbatim>\<open>forceStatus || (s.status === 'visited' ? 'planned' : 'visited')\<close>: the three status
  strings are truthy, so a given \<open>forceStatus\<close> is taken as it is.
\<close>

definition nextStatus :: "status option \<Rightarrow> Stop \<Rightarrow> status" where
  "nextStatus forceStatus s =
     (case forceStatus of
        Some target \<Rightarrow> target
      | None \<Rightarrow> (if status s = visited then planned else visited))"

definition toggleStatus :: "string \<Rightarrow> status option \<Rightarrow> unit reply \<Rightarrow> App \<Rightarrow> completion \<times> App" where
  "toggleStatus i forceStatus r st =
     (let updated = map (\<lambda>s. if id' s = i then s\<lparr>status := nextStatus forceStatus s\<rparr> else s)
                        (stops st)
      in syncData updated r st)"

text \<open>
  The body of the \<^verbatim>\<open>try\<close> in \<^verbatim>\<open>deleteStop\<close>: the awaited result is not looked at, so
  only a rejection throws.
\<close>

fun delete_try :: "string \<Rightarrow> unit reply \<Rightarrow> App \<Rightarrow> completion \<times> App" where
  "delete_try i (Rejects err) st = (Thrown err, emit (Delete i) st)"
| "delete_try i (Resolves d err) st = (Normal, emit (Delete i) st)"

definition deleteStop :: "string \<Rightarrow> unit reply \<Rightarrow> App \<Rightarrow> completion \<times> App" where
  "deleteStop i r st =
     (let updated = filter (\<lambda>s. id' s \<noteq> i) (stops st);
          st1 = st\<lparr>stops := updated\<rparr>;
          st2 = emit (SetItemStops updated) (st1\<lparr>kitatour_stops := Some updated\<rparr>)
      in if isOnline st2 \<and> supabase st2 then catch_log (delete_try i r st2)
         else (Normal, st2))"

text \<open>A sequence of calls of \<^verbatim>\<open>addStop\<close>, each with its id, its form and the remote answer.\<close>

definition addStops ::
  "(string \<Rightarrow> int option) \<Rightarrow> (string \<Rightarrow> number) \<Rightarrow> (string \<times> FormData \<times> unit reply) list
     \<Rightarrow> App \<Rightarrow> App" where
  "addStops parseISO toNumber calls st =
     fold (\<lambda>(uuid, formData, r) s. snd (addStop parseISO toNumber uuid formData r s)) calls st"

section \<open>Derived values\<close>

text \<open>
  The time value \<^verbatim>\<open>parseISO(s.dateTime)\<close> of a stop (\<open>None\<close> for an Invalid Date), and
  the order of two stops by it: \<open>notAfter\<close> holds when both dates are valid and the first
  is not later than the second.
\<close>

definition getTime :: "(string \<Rightarrow> int option) \<Rightarrow> Stop \<Rightarrow> int option" where
  "getTime parseISO s = parseISO (dateTime s)"

definition notAfter :: "(string \<Rightarrow> int option) \<Rightarrow> Stop \<Rightarrow> Stop \<Rightarrow> bool" where
  "notAfter parseISO a b =
     (case (getTime parseISO a, getTime parseISO b) of
        (Some x, Some y) \<Rightarrow> x \<le> y
      | _ \<Rightarrow> False)"

definition sortedStops :: "(string \<Rightarrow> int option) \<Rightarrow> App \<Rightarrow> Stop list" where
  "sortedStops parseISO st = sort_js (byDateTime parseISO) (stops st)"

definition nextStop :: "(string \<Rightarrow> int option) \<Rightarrow> App \<Rightarrow> Stop option" where
  "nextStop parseISO st = find (\<lambda>s. status s = planned) (sortedStops parseISO st)"

definition skippedStops :: "(string \<Rightarrow> int option) \<Rightarrow> App \<Rightarrow> Stop list" where
  "skippedStops parseISO st = filter (\<lambda>s. status s = skipped) (sortedStops parseISO st)"

definition completedStops :: "(string \<Rightarrow> int option) \<Rightarrow> App \<Rightarrow> Stop list" where
  "completedStops parseISO st = filter (\<lambda>s. status s = visited) (sortedStops parseISO st)"

text \<open>\<^verbatim>\<open>stop.cost || 0\<close>: a missing cost, and the falsy numbers, count as 0.\<close>

definition costOrZero :: "Stop \<Rightarrow> number" where
  "costOrZero s = (case cost s of None \<Rightarrow> Finite 0 | Some c \<Rightarrow> orZero c)"

text \<open>\<^verbatim>\<open>stops.reduce((acc, stop) => acc + (stop.cost || 0), 0)\<close>.\<close>

definition totalCost :: "App \<Rightarrow> number" where
  "totalCost st = foldl (\<lambda>acc stop. add_number acc (costOrZero stop)) (Finite 0) (stops st)"

text \<open>
  The sum of the cost fields in exact arithmetic, a missing or falsy cost counting as 0
  (\<open>None\<close> when a cost is infinite): the sum the specification speaks of, to compare
  \<open>totalCost\<close> with.
\<close>

fun exact_value :: "number \<Rightarrow> rat option" where
  "exact_value (Finite x) = Some x"
| "exact_value x = None"

fun exact_sum :: "Stop list \<Rightarrow> rat option" where
  "exact_sum [] = Some 0"
| "exact_sum (s # ss) =
     (case (exact_value (costOrZero s), exact_sum ss) of
        (Some c, Some t) \<Rightarrow> Some (c + t)
      | _ \<Rightarrow> None)"

section \<open>Insights: getSmartFallback and fetchAiInsights\<close>

text \<open>
  \<^verbatim>\<open>String.prototype.toLowerCase\<close> is a parameter \<open>toLowerCase :: string \<Rightarrow> string\<close> (the
  Unicode lower-casing of the language). \<^verbatim>\<open>String.prototype.includes\<close> (\<open>includes_js\<close>) is the
  test for a contiguous occurrence.
\<close>

fun includes_js :: "string \<Rightarrow> string \<Rightarrow> bool" where
  "includes_js [] searchString = (searchString = [])"
| "includes_js (c # cs) searchString =
     (take (length searchString) (c # cs) = searchString \<or> includes_js cs searchString)"

text \<open>Property access on a JSON value: \<^verbatim>\<open>aiInsights.tips\<close> and the like.\<close>

fun field :: "string \<Rightarrow> json \<Rightarrow> json option" where
  "field k (JObj kvs) = map_of kvs k"
| "field k v = None"

definition getSmartFallback :: "(string \<Rightarrow> string) \<Rightarrow> string \<Rightarrow> json" where
  "getSmartFallback toLowerCase title' =
     (let t = toLowerCase title';
          (tips, costs) =
            (if includes_js t ''pantai'' then
               (''Bawa sunblock, baju ganti, dan kacamata hitam.'',
                ''Biasanya ada biaya parkir & sewa payung.'')
             else if includes_js t ''candi'' \<or> includes_js t ''museum'' then
               (''Gunakan sepatu nyaman dan bawa topi.'',
                ''Siapkan biaya tiket masuk (biasanya Rp 20rb - 100rb).'')
             else if includes_js t ''makan'' \<or> includes_js t ''resto'' \<or> includes_js t ''kuliner'' then
               (''Cek ulasan terbaru untuk menu andalan.'',
                ''Estimasi Rp 50rb - 150rb per orang.'')
             else
               (''Siapkan peta offline dan air minum.'',
                ''Siapkan uang tunai untuk parkir/jajan.''))
      in JObj [(''costs'', JStr costs),
               (''weather'', JStr ''Cek langit secara manual (Mode Offline)''),
               (''recommendations'', JStr ''Tanya warga lokal untuk spot terbaik.''),
               (''tips'', JStr tips)])"

text \<open>\<^verbatim>\<open>response.text || '{}'\<close>: \<^verbatim>\<open>undefined\<close> and the empty string are falsy.\<close>

definition text_or_empty_object :: "string option \<Rightarrow> string" where
  "text_or_empty_object t =
     (case t of None \<Rightarrow> ''{}'' | Some s \<Rightarrow> (if s = [] then ''{}'' else s))"

text \<open>
  The body of the \<^verbatim>\<open>try\<close> in \<^verbatim>\<open>fetchAiInsights\<close>, after the request was sent.
  \<^verbatim>\<open>JSON.parse\<close> is the parameter \<open>JSON_parse :: string \<Rightarrow> json option\<close>, \<open>None\<close> when
  it throws a \<^verbatim>\<open>SyntaxError\<close>.
\<close>

fun ai_try :: "(string \<Rightarrow> json option) \<Rightarrow> string \<Rightarrow> ai_reply \<Rightarrow> App \<Rightarrow> completion \<times> App" where
  "ai_try JSON_parse i (AiRejects err) st = (Thrown err, st)"
| "ai_try JSON_parse i (AiResponse t) st =
     (case JSON_parse (text_or_empty_object t) of
        None \<Rightarrow> (Thrown SyntaxError, st)
      | Some data \<Rightarrow>
          (Normal, emit (SetItemAi i data)
             (st\<lparr>aiInsights := data, ai_cache := (ai_cache st)(i \<mapsto> data)\<rparr>)))"

text \<open>The \<^verbatim>\<open>catch\<close> block of \<^verbatim>\<open>fetchAiInsights\<close>: log, then show the fallback.\<close>

fun ai_catch :: "(string \<Rightarrow> string) \<Rightarrow> string \<Rightarrow> completion \<times> App \<Rightarrow> completion \<times> App" where
  "ai_catch toLowerCase title' (Thrown err, st) =
     (Normal, (emit (ConsoleError err) st)\<lparr>aiInsights := getSmartFallback toLowerCase title'\<rparr>)"
| "ai_catch toLowerCase title' (Normal, st) = (Normal, st)"

definition fetchAiInsights ::
  "(string \<Rightarrow> string) \<Rightarrow> (string \<Rightarrow> json option) \<Rightarrow> ai_reply \<Rightarrow> Stop \<Rightarrow> App
     \<Rightarrow> completion \<times> App" where
  "fetchAiInsights toLowerCase JSON_parse r stop st =
     (case ai_cache st (id' stop) of
        Some cached \<Rightarrow> (Normal, st\<lparr>aiInsights := cached\<rparr>)
      | None \<Rightarrow>
          if \<not> isOnline st then
            (Normal, st\<lparr>aiInsights := getSmartFallback toLowerCase (title stop)\<rparr>)
          else
            (let st1 = emit (GenerateContent (title stop) (address stop)) (st\<lparr>isLoadingAi := True\<rparr>);
                 (c, st2) = ai_catch toLowerCase (title stop) (ai_try JSON_parse (id' stop) r st1)
             in (c, st2\<lparr>isLoadingAi := False\<rparr>)))"

section \<open>Sample data\<close>

text \<open>
  Concrete inputs on which the theorems below are instantiated: a parser that knows
  four date texts (any other text, such as \<^verbatim>\<open>'T'\<close>, is an Invalid Date), \<^verbatim>\<open>Number\<close> on
  four texts, \<^verbatim>\<open>JSON.parse\<close> on the empty object and on \<^verbatim>\<open>{"tips":"Datang pagi"}\<close>, a lower-casing that is the language's on ASCII letters and on the letter
  U+0130 (bytes C4 B0, lower-cased to i followed by U+0307, bytes CC 87), and stops built
  from them.
\<close>

definition sample_parseISO :: "string \<Rightarrow> int option" where
  "sample_parseISO = map_of
     [(''2024-05-01T08:00'', 1714550400000), (''2024-05-01T09:00'', 1714554000000),
      (''2024-05-02T08:00'', 1714636800000), (''2024-05-03T10:30'', 1714732200000)]"

definition sample_toNumber :: "string \<Rightarrow> number" where
  "sample_toNumber s =
     (case map_of [('''', Finite 0), (''50000'', Finite 50000), (''1'', Finite 1),
                   (''9007199254740992'', Finite 9007199254740992)] s of
        Some n \<Rightarrow> n
      | None \<Rightarrow> NaN)"

definition lower_char :: "char \<Rightarrow> char" where
  "lower_char c =
     (case map_of (zip ''ABCDEFGHIJKLMNOPQRSTUVWXYZ'' ''abcdefghijklmnopqrstuvwxyz'') c of
        Some d \<Rightarrow> d
      | None \<Rightarrow> c)"

fun sample_toLowerCase :: "string \<Rightarrow> string" where
  "sample_toLowerCase (c # d # cs) =
     (if c = CHR 0xC4 \<and> d = CHR 0xB0
      then CHR ''i'' # CHR 0xCC # CHR 0x87 # sample_toLowerCase cs
      else lower_char c # sample_toLowerCase (d # cs))"
| "sample_toLowerCase [c] = [lower_char c]"
| "sample_toLowerCase [] = []"

definition sample_tips_text :: string where
  "sample_tips_text =
     ''{'' @ [CHR 0x22] @ ''tips'' @ [CHR 0x22] @ '':'' @ [CHR 0x22] @ ''Datang pagi'' @ [CHR 0x22] @ ''}''"

definition sample_JSON_parse :: "string \<Rightarrow> json option" where
  "sample_JSON_parse = map_of
     [(''{}'', JObj []), (sample_tips_text, JObj [(''tips'', JStr ''Datang pagi'')])]"

definition sample_stop :: "string \<Rightarrow> string \<Rightarrow> string \<Rightarrow> status \<Rightarrow> nat \<Rightarrow> Stop" where
  "sample_stop i t d s n =
     \<lparr> id' = i, title = t, address = ''Magelang'', dateTime = d, notes' = [],
       cost = Some (Finite 50000), status = s, order = n \<rparr>"

definition sample_app :: "Stop list \<Rightarrow> bool \<Rightarrow> App" where
  "sample_app xs online =
     \<lparr> stops = xs, isAdding = False, isLoading = False, isOnline = online, aiInsights = JNull,
       isLoadingAi = False, supabase = True, kitatour_stops = Some xs, ai_cache = Map.empty,
       trace = [] \<rparr>"

definition sample_candi :: Stop where
  "sample_candi = sample_stop ''a'' ''Candi Borobudur'' ''2024-05-01T09:00'' planned 0"

definition sample_pantai :: Stop where
  "sample_pantai = sample_stop ''b'' ''Pantai Parangtritis'' ''2024-05-01T08:00'' skipped 1"

definition sample_museum :: Stop where
  "sample_museum = sample_stop ''c'' ''Museum Affandi'' ''2024-05-02T08:00'' visited 2"

definition sample_trip :: App where
  "sample_trip = sample_app [sample_candi, sample_pantai, sample_museum] True"

definition sample_costly :: App where
  "sample_costly = sample_app
     [sample_candi\<lparr>cost := Some (Finite 9007199254740992)\<rparr>,
      sample_pantai\<lparr>cost := Some (Finite 1)\<rparr>] False"

definition sample_form :: "string \<Rightarrow> string \<Rightarrow> string \<Rightarrow> FormData" where
  "sample_form t d tm =
     \<lparr> fd_title = t, fd_address = ''Magelang'', fd_date = d, fd_time = tm,
       fd_cost = ''50000'', fd_notes = [] \<rparr>"

text \<open>
  Three calls of \<^verbatim>\<open>addStop\<close>: 09:00, then a form whose date and time are empty, then
  08:00 of the same day.
\<close>

definition sample_three_adds :: "(string \<times> FormData \<times> unit reply) list" where
  "sample_three_adds =
     [(''u1'', sample_form ''Candi Borobudur'' ''2024-05-01'' ''09:00'', Rejects NetworkError),
      (''u2'', sample_form ''Museum Affandi'' [] [], Rejects NetworkError),
      (''u3'', sample_form ''Pantai Parangtritis'' ''2024-05-01'' ''08:00'', Rejects NetworkError)]"

section \<open>Facts about the persistence helpers\<close>

lemma catch_log_fst: "fst (catch_log p) = Normal"
  by (cases p rule: catch_log.cases) simp_all

lemma catch_log_stops: "stops (snd (catch_log p)) = stops (snd p)"
  by (cases p rule: catch_log.cases) (simp_all add: emit_def)

lemma catch_log_kitatour: "kitatour_stops (snd (catch_log p)) = kitatour_stops (snd p)"
  by (cases p rule: catch_log.cases) (simp_all add: emit_def)

lemma sync_try_stops: "stops (snd (sync_try u r st)) = stops st"
  by (cases "(u, r, st)" rule: sync_try.cases) (simp_all add: emit_def)

lemma sync_try_kitatour: "kitatour_stops (snd (sync_try u r st)) = kitatour_stops st"
  by (cases "(u, r, st)" rule: sync_try.cases) (simp_all add: emit_def)

lemma syncData_fst: "fst (syncData u r st) = Normal"
  by (simp add: syncData_def Let_def catch_log_fst)

lemma syncData_stops: "stops (snd (syncData u r st)) = u"
  by (simp add: syncData_def Let_def catch_log_stops sync_try_stops emit_def)

lemma syncData_kitatour: "kitatour_stops (snd (syncData u r st)) = Some u"
  by (simp add: syncData_def Let_def catch_log_kitatour sync_try_kitatour emit_def)

lemma syncData_trace:
  "trace (snd (syncData u r st)) =
     trace st @ SetItemStops u #
       (if isOnline st \<and> supabase st then Upsert u # error_log (failure_of r) else [])"
proof (cases r)
  case (Rejects e)
  then show ?thesis by (simp add: syncData_def Let_def emit_def error_log_def)
next
  case (Resolves d err)
  then show ?thesis
    by (cases err) (simp_all add: syncData_def Let_def emit_def error_log_def)
qed

lemma syncData_ai_cache: "ai_cache (snd (syncData u r st)) = ai_cache st"
  by (cases r rule: failure_of.cases; cases "failure_of r"; simp add: syncData_def Let_def emit_def)

lemma addStop_syncData:
  "snd (addStop parseISO toNumber uuid formData r st) =
     (snd (syncData (sort_js (byDateTime parseISO) (stops st @ [newStop toNumber uuid formData st])) r st))
       \<lparr>isAdding := False\<rparr>"
  "fst (addStop parseISO toNumber uuid formData r st) = Normal"
  using syncData_fst [of "sort_js (byDateTime parseISO) (stops st @ [newStop toNumber uuid formData st])" r st]
  by (simp_all add: addStop_def Let_def split_beta split: completion.splits)

lemma addStop_stops:
  "stops (snd (addStop p n u fd r st)) = sort_js (byDateTime p) (stops st @ [newStop n u fd st])"
  by (simp add: addStop_syncData(1) syncData_stops)

lemma toggleStatus_nth:
  "n < length (stops st) \<Longrightarrow>
   stops (snd (toggleStatus i forceStatus r st)) ! n =
     (if id' (stops st ! n) = i then (stops st ! n)\<lparr>status := nextStatus forceStatus (stops st ! n)\<rparr>
      else stops st ! n)"
  by (simp add: toggleStatus_def syncData_stops)

lemma deleteStop_facts:
  "fst (deleteStop i r st) = Normal"
  "stops (snd (deleteStop i r st)) = filter (\<lambda>s. id' s \<noteq> i) (stops st)"
  "kitatour_stops (snd (deleteStop i r st)) = Some (filter (\<lambda>s. id' s \<noteq> i) (stops st))"
  "trace (snd (deleteStop i r st)) =
     trace st @ SetItemStops (filter (\<lambda>s. id' s \<noteq> i) (stops st)) #
       (if isOnline st \<and> supabase st
        then Delete i # (case r of Rejects err \<Rightarrow> [ConsoleError err] | Resolves d e \<Rightarrow> [])
        else [])"
  by (cases r; simp add: deleteStop_def Let_def emit_def)+

lemma deleteStop_ai_cache: "ai_cache (snd (deleteStop i r st)) = ai_cache st"
  by (cases r) (simp_all add: deleteStop_def Let_def emit_def)

lemma loadData_unfold:
  "loadData r st =
     (let st2 = (case kitatour_stops st of
                   Some cached \<Rightarrow> st\<lparr>isLoading := True, stops := cached\<rparr>
                 | None \<Rightarrow> st\<lparr>isLoading := True\<rparr>);
          p = (if isOnline st \<and> supabase st then catch_log (load_try r st2) else (Normal, st2))
      in (fst p, (snd p)\<lparr>isLoading := False\<rparr>))"
  by (auto simp add: loadData_def Let_def split_beta split: option.splits)

lemma loadData_ai_cache: "ai_cache (snd (loadData r st)) = ai_cache st"
proof (cases r)
  case (Rejects e)
  then show ?thesis by (simp add: loadData_unfold Let_def emit_def split: option.splits)
next
  case (Resolves d err)
  then show ?thesis
    by (cases d; cases err) (simp_all add: loadData_unfold Let_def emit_def split: option.splits)
qed

section \<open>Facts about sorting\<close>

text \<open>
  The sort returns a rearrangement of its input, whatever the comparator answers.
\<close>

lemma length_insert_sorted: "length (insert_sorted c x ys) = Suc (length ys)"
  by (induction ys) simp_all

lemma set_insert_sorted: "set (insert_sorted c x ys) = insert x (set ys)"
  by (induction ys) auto

lemma length_sort_js: "length (sort_js c xs) = length xs"
  by (induction xs) (simp_all add: sort_js_def length_insert_sorted)

lemma set_sort_js: "set (sort_js c xs) = set xs"
  by (induction xs) (simp_all add: sort_js_def set_insert_sorted)

text \<open>
  On stops whose dates are all valid the comparator is the order of the time values, and
  the sort is the library's stable insertion sort by that key.
\<close>

lemma sortCompare_le:
  "getTime p x = Some a \<Longrightarrow> getTime p y = Some b \<Longrightarrow>
   sortCompare (byDateTime p) x y \<le> 0 \<longleftrightarrow> a \<le> b"
  by (simp add: sortCompare_def byDateTime_def compareAsc_def getTime_def Let_def)

lemma insert_sorted_insort:
  assumes "getTime p x \<noteq> None" "\<forall>y\<in>set ys. getTime p y \<noteq> None"
  shows "insert_sorted (byDateTime p) x ys = insort_key (\<lambda>s. the (getTime p s)) x ys"
  using assms
proof (induction ys)
  case Nil
  then show ?case by simp
next
  case (Cons y ys)
  from Cons.prems obtain a b where ab: "getTime p x = Some a" "getTime p y = Some b"
    by auto
  with Cons show ?case by (simp add: sortCompare_le)
qed

lemma sort_js_sort_key:
  assumes "\<forall>s\<in>set xs. getTime p s \<noteq> None"
  shows "sort_js (byDateTime p) xs = sort_key (\<lambda>s. the (getTime p s)) xs"
  using assms
proof (induction xs)
  case Nil
  then show ?case by (simp add: sort_js_def)
next
  case (Cons x xs)
  then have ih: "sort_js (byDateTime p) xs = sort_key (\<lambda>s. the (getTime p s)) xs"
    by simp
  have "sort_js (byDateTime p) (x # xs) = insert_sorted (byDateTime p) x (sort_js (byDateTime p) xs)"
    by (simp add: sort_js_def)
  also have "\<dots> = insort_key (\<lambda>s. the (getTime p s)) x (sort_js (byDateTime p) xs)"
    using Cons.prems by (intro insert_sorted_insort) (simp_all add: set_sort_js)
  finally show ?case by (simp add: ih)
qed

lemma notAfter_valid:
  "getTime p a \<noteq> None \<Longrightarrow> getTime p b \<noteq> None \<Longrightarrow>
   notAfter p a b \<longleftrightarrow> the (getTime p a) \<le> the (getTime p b)"
  by (auto simp add: notAfter_def)

lemma sorted_sort_js:
  assumes "\<forall>s\<in>set xs. getTime p s \<noteq> None"
  shows "sorted_wrt (notAfter p) (sort_js (byDateTime p) xs)"
proof -
  have "sorted (map (\<lambda>s. the (getTime p s)) (sort_key (\<lambda>s. the (getTime p s)) xs))"
    by (rule sorted_sort_key)
  then have "sorted_wrt (\<lambda>a b. the (getTime p a) \<le> the (getTime p b)) (sort_key (\<lambda>s. the (getTime p s)) xs)"
    by (simp add: sorted_map)
  then have "sorted_wrt (notAfter p) (sort_key (\<lambda>s. the (getTime p s)) xs)"
    by (rule sorted_wrt_mono_rel [rotated]) (use assms in \<open>simp add: notAfter_valid\<close>)
  then show ?thesis by (simp add: sort_js_sort_key [OF assms])
qed

lemma stable_sort_js:
  assumes "\<forall>s\<in>set xs. getTime p s \<noteq> None"
  shows "filter (\<lambda>s. getTime p s = Some t) (sort_js (byDateTime p) xs) =
         filter (\<lambda>s. getTime p s = Some t) xs"
proof -
  have e: "filter (\<lambda>s. getTime p s = Some t) ys = filter (\<lambda>s. the (getTime p s) = t) ys"
    if "set ys = set xs" for ys
    by (rule filter_cong) (use assms that in auto)
  have "filter (\<lambda>s. the (getTime p s) = t) (sort_key (\<lambda>s. the (getTime p s)) xs) =
        filter (\<lambda>s. the (getTime p s) = t) xs"
    by (rule sort_key_stable)
  then show ?thesis
    by (simp add: e set_sort_js sort_js_sort_key [OF assms, symmetric])
qed

lemma addStops_valid:
  assumes "\<forall>s\<in>set (stops st). getTime p s \<noteq> None"
    and "\<forall>(u, fd, r)\<in>set calls. p (fd_date fd @ ''T'' @ fd_time fd) \<noteq> None"
  shows "\<forall>s\<in>set (stops (addStops p n calls st)). getTime p s \<noteq> None"
  using assms
proof (induction calls arbitrary: st)
  case Nil
  then show ?case by (simp add: addStops_def)
next
  case (Cons c calls)
  obtain u fd r where c: "c = (u, fd, r)" by (cases c)
  have v: "\<forall>s\<in>set (stops (snd (addStop p n u fd r st))). getTime p s \<noteq> None"
    using Cons.prems by (simp add: addStop_stops set_sort_js c getTime_def newStop_def)
  have "addStops p n (c # calls) st = addStops p n calls (snd (addStop p n u fd r st))"
    by (simp add: addStops_def c)
  with Cons.IH [OF v] Cons.prems(2) show ?case by simp
qed

lemma find_filter_hd:
  "find Q zs = (case filter Q zs of [] \<Rightarrow> None | x # _ \<Rightarrow> Some x)"
  by (induction zs) simp_all

section \<open>Facts about the insight resolver\<close>

lemma includes_js_iff: "includes_js s k \<longleftrightarrow> (\<exists>ps ss. s = ps @ k @ ss)"
proof (induction s)
  case Nil
  then show ?case by auto
next
  case (Cons c cs)
  show ?case
  proof
    assume "includes_js (c # cs) k"
    then consider "take (length k) (c # cs) = k" | "includes_js cs k" by auto
    then show "\<exists>ps ss. c # cs = ps @ k @ ss"
    proof cases
      case 1
      then have "c # cs = [] @ k @ drop (length k) (c # cs)"
        by (metis append_Nil append_take_drop_id)
      then show ?thesis by blast
    next
      case 2
      with Cons.IH obtain ps ss where "cs = ps @ k @ ss" by blast
      then have "c # cs = (c # ps) @ k @ ss" by simp
      then show ?thesis by blast
    qed
  next
    assume "\<exists>ps ss. c # cs = ps @ k @ ss"
    then obtain ps ss where e: "c # cs = ps @ k @ ss" by blast
    show "includes_js (c # cs) k"
    proof (cases ps)
      case Nil
      with e have "take (length k) (c # cs) = k" by simp
      then show ?thesis by simp
    next
      case (Cons p ps')
      with e have "cs = ps' @ k @ ss" by simp
      with Cons.IH have "includes_js cs k" by blast
      then show ?thesis by simp
    qed
  qed
qed

text \<open>The four answers of the keyword heuristic, by the first category that matches.\<close>

lemma fallback_beach:
  "includes_js (L t) ''pantai'' \<Longrightarrow>
   getSmartFallback L t =
     JObj [(''costs'', JStr ''Biasanya ada biaya parkir & sewa payung.''),
           (''weather'', JStr ''Cek langit secara manual (Mode Offline)''),
           (''recommendations'', JStr ''Tanya warga lokal untuk spot terbaik.''),
           (''tips'', JStr ''Bawa sunblock, baju ganti, dan kacamata hitam.'')]"
  by (simp add: getSmartFallback_def Let_def)

lemma fallback_heritage:
  "\<not> includes_js (L t) ''pantai'' \<Longrightarrow>
   includes_js (L t) ''candi'' \<or> includes_js (L t) ''museum'' \<Longrightarrow>
   getSmartFallback L t =
     JObj [(''costs'', JStr ''Siapkan biaya tiket masuk (biasanya Rp 20rb - 100rb).''),
           (''weather'', JStr ''Cek langit secara manual (Mode Offline)''),
           (''recommendations'', JStr ''Tanya warga lokal untuk spot terbaik.''),
           (''tips'', JStr ''Gunakan sepatu nyaman dan bawa topi.'')]"
  by (auto simp add: getSmartFallback_def Let_def)

lemma fallback_food:
  "\<not> includes_js (L t) ''pantai'' \<Longrightarrow>
   \<not> includes_js (L t) ''candi'' \<Longrightarrow> \<not> includes_js (L t) ''museum'' \<Longrightarrow>
   includes_js (L t) ''makan'' \<or> includes_js (L t) ''resto'' \<or> includes_js (L t) ''kuliner'' \<Longrightarrow>
   getSmartFallback L t =
     JObj [(''costs'', JStr ''Estimasi Rp 50rb - 150rb per orang.''),
           (''weather'', JStr ''Cek langit secara manual (Mode Offline)''),
           (''recommendations'', JStr ''Tanya warga lokal untuk spot terbaik.''),
           (''tips'', JStr ''Cek ulasan terbaru untuk menu andalan.'')]"
  by (auto simp add: getSmartFallback_def Let_def)

lemma fallback_default:
  "\<not> includes_js (L t) ''pantai'' \<Longrightarrow>
   \<not> includes_js (L t) ''candi'' \<Longrightarrow> \<not> includes_js (L t) ''museum'' \<Longrightarrow>
   \<not> includes_js (L t) ''makan'' \<Longrightarrow> \<not> includes_js (L t) ''resto'' \<Longrightarrow>
   \<not> includes_js (L t) ''kuliner'' \<Longrightarrow>
   getSmartFallback L t =
     JObj [(''costs'', JStr ''Siapkan uang tunai untuk parkir/jajan.''),
           (''weather'', JStr ''Cek langit secara manual (Mode Offline)''),
           (''recommendations'', JStr ''Tanya warga lokal untuk spot terbaik.''),
           (''tips'', JStr ''Siapkan peta offline dan air minum.'')]"
  by (simp add: getSmartFallback_def Let_def)

text \<open>The text that is parsed: the response's own text unless it is missing or empty.\<close>

lemma text_or_empty_object_cases:
  "t \<noteq> [] \<Longrightarrow> text_or_empty_object (Some t) = t"
  "text_or_empty_object (Some []) = ''{}''"
  "text_or_empty_object None = ''{}''"
  by (simp_all add: text_or_empty_object_def)

lemma fetch_cached:
  "ai_cache st (id' stop) = Some cached \<Longrightarrow>
   fetchAiInsights L P r stop st = (Normal, st\<lparr>aiInsights := cached\<rparr>)"
  by (simp add: fetchAiInsights_def)

lemma fetch_offline:
  "ai_cache st (id' stop) = None \<Longrightarrow> \<not> isOnline st \<Longrightarrow>
   fetchAiInsights L P r stop st = (Normal, st\<lparr>aiInsights := getSmartFallback L (title stop)\<rparr>)"
  by (simp add: fetchAiInsights_def)

lemma fetch_online:
  "ai_cache st (id' stop) = None \<Longrightarrow> isOnline st \<Longrightarrow>
   fetchAiInsights L P r stop st =
     (let st1 = emit (GenerateContent (title stop) (address stop)) (st\<lparr>isLoadingAi := True\<rparr>);
          p = ai_catch L (title stop) (ai_try P (id' stop) r st1)
      in (fst p, (snd p)\<lparr>isLoadingAi := False\<rparr>))"
  by (simp add: fetchAiInsights_def Let_def split_beta)

lemma fetch_online_rejects:
  "ai_cache st (id' stop) = None \<Longrightarrow> isOnline st \<Longrightarrow>
   fetchAiInsights L P (AiRejects e) stop st =
     (Normal, st\<lparr>aiInsights := getSmartFallback L (title stop), isLoadingAi := False,
                 trace := trace st @ [GenerateContent (title stop) (address stop), ConsoleError e]\<rparr>)"
  by (simp add: fetch_online Let_def emit_def)

lemma fetch_online_unparsed:
  "ai_cache st (id' stop) = None \<Longrightarrow> isOnline st \<Longrightarrow> P (text_or_empty_object t) = None \<Longrightarrow>
   fetchAiInsights L P (AiResponse t) stop st =
     (Normal, st\<lparr>aiInsights := getSmartFallback L (title stop), isLoadingAi := False,
                 trace := trace st @ [GenerateContent (title stop) (address stop), ConsoleError SyntaxError]\<rparr>)"
  by (simp add: fetch_online Let_def emit_def)

lemma fetch_online_parsed:
  "ai_cache st (id' stop) = None \<Longrightarrow> isOnline st \<Longrightarrow> P (text_or_empty_object t) = Some data \<Longrightarrow>
   fetchAiInsights L P (AiResponse t) stop st =
     (Normal, st\<lparr>aiInsights := data, isLoadingAi := False,
                 ai_cache := (ai_cache st)(id' stop \<mapsto> data),
                 trace := trace st @ [GenerateContent (title stop) (address stop),
                                      SetItemAi (id' stop) data]\<rparr>)"
  by (simp add: fetch_online Let_def emit_def)

lemma fetch_keeps_entries:
  "ai_cache st k = Some v \<Longrightarrow> ai_cache (snd (fetchAiInsights L P r stop st)) k = Some v"
proof (cases "ai_cache st (id' stop)")
  case (Some cached)
  assume "ai_cache st k = Some v"
  with Some show ?thesis by (simp add: fetch_cached)
next
  case None
  assume k: "ai_cache st k = Some v"
  with None have ne: "k \<noteq> id' stop" by auto
  show ?thesis
  proof (cases "isOnline st")
    case False
    with None k show ?thesis by (simp add: fetch_offline)
  next
    case True
    show ?thesis
    proof (cases r)
      case (AiRejects e)
      with None True k show ?thesis by (simp add: fetch_online_rejects)
    next
      case (AiResponse t)
      with None True k ne show ?thesis
        by (cases "P (text_or_empty_object t)")
           (simp_all add: fetch_online_unparsed fetch_online_parsed)
    qed
  qed
qed

section \<open>Facts about the addition of numbers\<close>

text \<open>
  \<open>bits\<close> and \<open>ilog2\<close> give the binary exponent, and \<open>round_half_even\<close> a nearest integer.
\<close>

lemma bits_bounds:
  "0 < n \<Longrightarrow> 0 < bits n \<and> 2 ^ nat (bits n - 1) \<le> n \<and> n < 2 ^ nat (bits n)"
proof (induction n rule: bits.induct)
  case (1 n)
  then have pos: "0 < n" by simp
  have b: "bits n = 1 + bits (n div 2)"
    using pos by (simp add: bits.simps [of n])
  show ?case
  proof (cases "n div 2 = 0")
    case True
    with pos have "n = 1" by presburger
    then show ?thesis by (simp add: bits.simps [of 1] bits.simps [of 0])
  next
    case False
    with pos have h: "0 < n div 2" by presburger
    from "1.IH" pos h have ih: "0 < bits (n div 2)"
      "2 ^ nat (bits (n div 2) - 1) \<le> n div 2" "n div 2 < 2 ^ nat (bits (n div 2))"
      by simp_all
    define k where "k = nat (bits (n div 2) - 1)"
    from ih(1) have kb: "bits (n div 2) = int k + 1" by (simp add: k_def)
    from ih(2) have l: "(2::int) ^ k \<le> n div 2" by (simp add: k_def)
    from ih(3) kb have u: "n div 2 < (2::int) ^ Suc k"
      by (simp add: nat_add_distrib)
    have "2 * (n div 2) \<le> n" "n \<le> 2 * (n div 2) + 1" by presburger+
    with l u have "(2::int) ^ Suc k \<le> n" "n < 2 ^ Suc (Suc k)" by simp_all
    moreover have "nat (bits n - 1) = Suc k" "nat (bits n) = Suc (Suc k)" "0 < bits n"
      using b kb by simp_all
    ultimately show ?thesis by simp
  qed
qed

lemma ilog2_bounds:
  assumes "0 < x"
  shows "pow2 (ilog2 x) \<le> x \<and> x < pow2 (ilog2 x + 1)"
proof (cases "1 \<le> x")
  case True
  define n where "n = \<lfloor>x\<rfloor>"
  have n1: "0 < n" using True by (simp add: n_def)
  define e where "e = bits n - 1"
  from bits_bounds [OF n1] have bb: "0 \<le> e" "2 ^ nat e \<le> n" "n < 2 ^ nat (e + 1)"
    by (simp_all add: e_def)
  have il: "ilog2 x = e" using True by (simp add: ilog2_def e_def n_def)
  have "(of_int (2 ^ nat e) :: rat) \<le> of_int n" using bb(2) by (simp only: of_int_le_iff)
  also have "\<dots> \<le> x" unfolding n_def by linarith
  finally have l: "pow2 e \<le> x" using bb(1) by (simp add: pow2_def)
  have "x < of_int n + 1" unfolding n_def by linarith
  also have "\<dots> = of_int (n + 1)" by simp
  also have "\<dots> \<le> of_int (2 ^ nat (e + 1))"
    using bb(3) by (simp only: of_int_le_iff)
  finally have u: "x < pow2 (e + 1)" using bb(1) by (simp add: pow2_def)
  from l u il show ?thesis by simp
next
  case False
  then have x1: "x < 1" by simp
  define y where "y = 1 / x"
  have y1: "1 < y" using assms x1 by (simp add: y_def)
  define m where "m = \<lceil>y\<rceil> - 1"
  have m1: "0 < m" using y1 by (simp add: m_def)
  define k where "k = bits m"
  from bits_bounds [OF m1] have bb: "0 < k" "2 ^ nat (k - 1) \<le> m" "m < 2 ^ nat k"
    by (simp_all add: k_def)
  have il: "ilog2 x = - k" using False by (simp add: ilog2_def k_def m_def y_def)
  have c: "y \<le> of_int \<lceil>y\<rceil>" "of_int \<lceil>y\<rceil> < y + 1" by linarith+
  have my: "of_int m < y" "y \<le> of_int m + 1"
    using c by (simp_all add: m_def)
  have "y \<le> of_int (m + 1)" using my(2) by simp
  also have "\<dots> \<le> of_int (2 ^ nat k)" using bb(3) by (simp only: of_int_le_iff)
  finally have yu: "y \<le> 2 ^ nat k" by simp
  have "(of_int (2 ^ nat (k - 1)) :: rat) \<le> of_int m" using bb(2) by (simp only: of_int_le_iff)
  then have "(2::rat) ^ nat (k - 1) \<le> of_int m" by simp
  from this my(1) have yl: "2 ^ nat (k - 1) < y" by (rule order_le_less_trans)
  have xy: "x = 1 / y" using assms by (simp add: y_def)
  have p1: "pow2 (- k) = 1 / 2 ^ nat k" using bb(1) by (simp add: pow2_def)
  have p2: "pow2 (- k + 1) = 1 / 2 ^ nat (k - 1)"
  proof (cases "k = 1")
    case True
    then show ?thesis by (simp add: pow2_def)
  next
    case False
    with bb(1) have "- k + 1 < 0" by simp
    moreover have "nat (- (- k + 1)) = nat (k - 1)" by simp
    ultimately show ?thesis by (simp add: pow2_def)
  qed
  have ypos: "0 < y" using y1 by simp
  have "1 / 2 ^ nat k \<le> 1 / y"
    using yu ypos by (intro divide_left_mono) simp_all
  then have l: "pow2 (- k) \<le> x" by (simp only: p1 xy)
  have "1 / y < 1 / 2 ^ nat (k - 1)"
    using yl ypos by (intro divide_strict_left_mono) simp_all
  then have u: "x < pow2 (- k + 1)" by (simp only: p2 xy)
  from l u il show ?thesis by simp
qed

lemma round_half_even_of_int: "round_half_even (of_int k) = k"
  by (simp add: round_half_even_def)

lemma round_half_even_nearest: "\<bar>of_int (round_half_even r) - r\<bar> \<le> 1 / 2"
proof -
  define f where "f = \<lfloor>r\<rfloor>"
  have b: "of_int f \<le> r" "r < of_int f + 1" unfolding f_def by linarith+
  consider "r - of_int f < 1 / 2" | "1 / 2 < r - of_int f" | "r - of_int f = 1 / 2"
    by linarith
  then show ?thesis
  proof cases
    case 1
    then have "round_half_even r = f" by (simp add: round_half_even_def f_def)
    with 1 b show ?thesis by simp
  next
    case 2
    then have "round_half_even r = f + 1" by (simp add: round_half_even_def f_def)
    with 2 b show ?thesis by simp
  next
    case 3
    then have "round_half_even r = f \<or> round_half_even r = f + 1"
      by (simp add: round_half_even_def f_def Let_def)
    with 3 show ?thesis by auto
  qed
qed

text \<open>
  The integers from 0 to \<open>2^53\<close> are doubles, and a sum of two natural numbers that is at
  most \<open>2^53\<close> is exact.
\<close>

lemma round_double_of_int:
  assumes "0 \<le> n" and "n \<le> 2 ^ 53"
  shows "round_double (of_int n) = Finite (of_int n)"
proof (cases "n = 0")
  case True
  then show ?thesis by (simp add: round_double_def)
next
  case False
  with assms have pos: "0 < n" by simp
  define e where "e = bits n - 1"
  from bits_bounds [OF pos] have bb: "0 \<le> e" "2 ^ nat e \<le> n" "n < 2 ^ nat (e + 1)"
    by (simp_all add: e_def)
  have x1: "(1::rat) \<le> of_int n" using pos by simp
  have il: "ilog2 \<bar>of_int n\<bar> = e"
    using x1 pos by (simp add: ilog2_def e_def)
  have h: "(2::int) ^ nat e \<le> 2 ^ 53" using bb(2) assms(2) by (rule order_trans)
  have "nat e \<le> 53" by (rule power_le_imp_le_exp [OF _ h]) simp
  then have e53: "e \<le> 53" using bb(1) by simp
  have mx: "max e (- 1022) = e" using bb(1) by simp
  have big: "\<not> pow2 1024 \<le> (of_int n :: rat)"
  proof -
    have "(of_int n :: rat) \<le> 2 ^ 53" using assms(2) by (metis of_int_le_iff of_int_numeral of_int_power)
    also have "\<dots> < 2 ^ 1024" by (simp add: power_strict_increasing_iff)
    finally show ?thesis by (simp add: pow2_def)
  qed
  have m: "of_int (round_half_even (\<bar>of_int n\<bar> / pow2 (e - 52))) * pow2 (e - 52) = (of_int n :: rat)"
  proof (cases "e \<le> 52")
    case True
    define d where "d = nat (52 - e)"
    have p: "pow2 (e - 52) = 1 / 2 ^ d"
    proof (cases "e = 52")
      case True
      then show ?thesis by (simp add: pow2_def d_def)
    next
      case False
      with \<open>e \<le> 52\<close> have "e - 52 < 0" by simp
      then show ?thesis by (simp add: pow2_def d_def)
    qed
    have "\<bar>of_int n\<bar> / pow2 (e - 52) = (of_int (n * 2 ^ d) :: rat)"
      using pos by (simp add: p)
    then show ?thesis
      by (simp only: round_half_even_of_int) (simp add: p)
  next
    case False
    with e53 have e: "e = 53" by simp
    with bb(2) assms(2) have n: "n = 2 ^ 53" by simp
    have "\<bar>of_int n\<bar> / pow2 (e - 52) = (of_int (2 ^ 52) :: rat)"
      by (simp add: n e pow2_def)
    then show ?thesis
      by (simp only: round_half_even_of_int) (simp add: n e pow2_def)
  qed
  have nz: "(of_int n :: rat) \<noteq> 0" using pos by simp
  have sg: "sgn (of_int n :: rat) = 1" using pos by simp
  show ?thesis
    unfolding round_double_def Let_def il mx m
    using nz big pos sg by simp
qed

lemma add_number_nat:
  assumes "a + n \<le> 2 ^ 53"
  shows "add_number (Finite (of_nat a)) (Finite (of_nat n)) = Finite (of_nat (a + n))"
proof -
  have "int (a + n) \<le> 2 ^ 53"
    using assms by (metis of_nat_le_iff of_nat_numeral of_nat_power)
  then have "round_double (of_int (int (a + n))) = Finite (of_int (int (a + n)))"
    by (intro round_double_of_int) simp_all
  then show ?thesis by simp
qed

text \<open>
  Three sums that are not exact: \<open>2^53 + 1\<close> is a tie and goes to the even neighbour below,
  \<open>2^53 + 3\<close> is a tie and goes to the even neighbour above, and the doubles nearest to 0.1
  and 0.2 add up to the double 0.30000000000000004.
\<close>

lemma round_double_2_53_plus_1: "round_double 9007199254740993 = Finite 9007199254740992"
  by code_simp

lemma add_number_tie_up:
  "add_number (Finite 9007199254740992) (Finite 3) = Finite 9007199254740996"
  by code_simp

lemma add_number_tenths:
  "add_number (Finite (3602879701896397 / 36028797018963968))
              (Finite (3602879701896397 / 18014398509481984)) =
   Finite (1351079888211149 / 4503599627370496)"
  by code_simp

text \<open>
  The total over stops whose costs are natural numbers, and the exact sum of such costs.
\<close>

lemma costOrZero_status: "costOrZero (s\<lparr>status := t\<rparr>) = costOrZero s"
  by (simp add: costOrZero_def)

lemma foldl_add_exact:
  assumes "map costOrZero xs = map (\<lambda>n. Finite (of_nat n)) ns"
    and "a + sum_list ns \<le> 2 ^ 53"
  shows "foldl (\<lambda>acc stop. add_number acc (costOrZero stop)) (Finite (of_nat a)) xs =
         Finite (of_nat (a + sum_list ns))"
  using assms
proof (induction xs arbitrary: a ns)
  case Nil
  then show ?case by simp
next
  case (Cons x xs)
  from Cons.prems(1) obtain n ns' where ns: "ns = n # ns'"
    and x: "costOrZero x = Finite (of_nat n)"
    and xs: "map costOrZero xs = map (\<lambda>n. Finite (of_nat n)) ns'"
    by (cases ns) auto
  from Cons.prems(2) ns have b: "a + n \<le> 2 ^ 53" "(a + n) + sum_list ns' \<le> 2 ^ 53"
    by simp_all
  have "foldl (\<lambda>acc stop. add_number acc (costOrZero stop)) (Finite (of_nat a)) (x # xs) =
        foldl (\<lambda>acc stop. add_number acc (costOrZero stop)) (Finite (of_nat (a + n))) xs"
    by (simp only: foldl_Cons x add_number_nat [OF b(1)])
  also have "\<dots> = Finite (of_nat ((a + n) + sum_list ns'))"
    by (rule Cons.IH [OF xs b(2)])
  finally show ?case by (simp add: ns add.assoc)
qed

lemma exact_sum_nat:
  "map costOrZero xs = map (\<lambda>n. Finite (of_nat n)) ns \<Longrightarrow>
   exact_sum xs = Some (of_nat (sum_list ns))"
proof (induction xs arbitrary: ns)
  case Nil
  then show ?case by simp
next
  case (Cons x xs)
  from Cons.prems obtain n ns' where ns: "ns = n # ns'"
    and x: "costOrZero x = Finite (of_nat n)"
    and xs: "map costOrZero xs = map (\<lambda>n. Finite (of_nat n)) ns'"
    by (cases ns) auto
  from Cons.IH [OF xs] x show ?case by (simp add: ns)
qed

section \<open>Evaluation on the sample data\<close>

text \<open>
  The definitions unfolded to run the functions on the sample data, the collection after
  the two adds of scenario B of the specification (09:00 first, then 08:00), and the
  collection after the three adds with an empty date and time in the middle: every
  comparison made with the Invalid Date answers NaN, read as 0, so nothing moves.
\<close>

lemmas sample_defs = sample_app_def sample_stop_def sample_form_def sample_trip_def
  sample_candi_def sample_pantai_def sample_museum_def
  sample_costly_def sample_parseISO_def sample_toNumber_def sample_JSON_parse_def
  sample_tips_text_def lower_char_def orZero_def

lemmas run_defs = addStop_def syncData_def toggleStatus_def deleteStop_def loadData_def newStop_def
  sort_js_def sortCompare_def byDateTime_def compareAsc_def emit_def Let_def error_log_def
  nextStatus_def

lemma sample_first_add:
  "stops (snd (addStop sample_parseISO sample_toNumber ''u1''
     (sample_form ''Candi Borobudur'' ''2024-05-01'' ''09:00'') (Rejects NetworkError) (sample_app [] False)))
   = [sample_stop ''u1'' ''Candi Borobudur'' ''2024-05-01T09:00'' planned 0]"
  by (simp add: addStop_stops newStop_def sort_js_def sample_defs)

lemma sample_second_add:
  "stops (snd (addStop sample_parseISO sample_toNumber ''u2''
     (sample_form ''Pantai Parangtritis'' ''2024-05-01'' ''08:00'') (Rejects NetworkError)
     (snd (addStop sample_parseISO sample_toNumber ''u1''
     (sample_form ''Candi Borobudur'' ''2024-05-01'' ''09:00'') (Rejects NetworkError) (sample_app [] False)))))
   = [sample_stop ''u2'' ''Pantai Parangtritis'' ''2024-05-01T08:00'' planned 1,
      sample_stop ''u1'' ''Candi Borobudur'' ''2024-05-01T09:00'' planned 0]"
  apply (simp only: addStop_stops [of _ _ "''u2''"] sample_first_add newStop_def)
  apply (simp add: sort_js_def sortCompare_def byDateTime_def compareAsc_def sample_defs)
  done

lemma sample_three_adds_stops:
  "stops (addStops sample_parseISO sample_toNumber sample_three_adds (sample_app [] False)) =
     [sample_stop ''u1'' ''Candi Borobudur'' ''2024-05-01T09:00'' planned 0,
      sample_stop ''u2'' ''Museum Affandi'' ''T'' planned 1,
      sample_stop ''u3'' ''Pantai Parangtritis'' ''2024-05-01T08:00'' planned 2]"
proof -
  let ?s1 = "snd (addStop sample_parseISO sample_toNumber ''u1''
     (sample_form ''Candi Borobudur'' ''2024-05-01'' ''09:00'') (Rejects NetworkError) (sample_app [] False))"
  let ?s2 = "snd (addStop sample_parseISO sample_toNumber ''u2''
     (sample_form ''Museum Affandi'' [] []) (Rejects NetworkError) ?s1)"
  let ?s3 = "snd (addStop sample_parseISO sample_toNumber ''u3''
     (sample_form ''Pantai Parangtritis'' ''2024-05-01'' ''08:00'') (Rejects NetworkError) ?s2)"
  have 2: "stops ?s2 = [sample_stop ''u1'' ''Candi Borobudur'' ''2024-05-01T09:00'' planned 0,
      sample_stop ''u2'' ''Museum Affandi'' ''T'' planned 1]"
    apply (simp only: addStop_stops [of _ _ "''u2''"] sample_first_add newStop_def)
    apply (simp add: sort_js_def sortCompare_def byDateTime_def compareAsc_def sample_defs)
    done
  have 3: "stops ?s3 = [sample_stop ''u1'' ''Candi Borobudur'' ''2024-05-01T09:00'' planned 0,
      sample_stop ''u2'' ''Museum Affandi'' ''T'' planned 1,
      sample_stop ''u3'' ''Pantai Parangtritis'' ''2024-05-01T08:00'' planned 2]"
    apply (simp only: addStop_stops [of _ _ "''u3''"] 2 newStop_def)
    apply (simp add: sort_js_def sortCompare_def byDateTime_def compareAsc_def sample_defs)
    done
  have "addStops sample_parseISO sample_toNumber sample_three_adds (sample_app [] False) = ?s3"
    by (simp add: addStops_def sample_three_adds_def)
  with 3 show ?thesis by simp
qed

lemma sample_three_adds_sorted:
  "sortedStops sample_parseISO (addStops sample_parseISO sample_toNumber sample_three_adds (sample_app [] False)) =
     [sample_stop ''u1'' ''Candi Borobudur'' ''2024-05-01T09:00'' planned 0,
      sample_stop ''u2'' ''Museum Affandi'' ''T'' planned 1,
      sample_stop ''u3'' ''Pantai Parangtritis'' ''2024-05-01T08:00'' planned 2]"
  unfolding sortedStops_def sample_three_adds_stops
  by (simp add: sort_js_def sortCompare_def byDateTime_def compareAsc_def sample_stop_def
      sample_parseISO_def)

section \<open>The claims\<close>

subsection \<open>C1: addStop and empty required fields\<close>

text \<open>
  C1, as the code has it. \<open>addStop\<close> makes no check of the title, the address, the date or
  the time: every call, also one in which some of them are empty, ends normally, inserts
  exactly the new stop, which carries the title, the address and \<^verbatim>\<open>`${date}T${time}`\<close> as
  they were submitted, writes the updated collection to the local cache, and then, when
  online with a configured remote store, sends the upsert of that collection (nothing is
  sent otherwise).
\<close>

theorem addStop_never_rejects:
  "fst (addStop parseISO toNumber uuid formData r st) = Normal \<and>
   length (stops (snd (addStop parseISO toNumber uuid formData r st))) = Suc (length (stops st)) \<and>
   set (stops (snd (addStop parseISO toNumber uuid formData r st))) =
     insert (newStop toNumber uuid formData st) (set (stops st)) \<and>
   title (newStop toNumber uuid formData st) = fd_title formData \<and>
   address (newStop toNumber uuid formData st) = fd_address formData \<and>
   dateTime (newStop toNumber uuid formData st) = fd_date formData @ ''T'' @ fd_time formData \<and>
   kitatour_stops (snd (addStop parseISO toNumber uuid formData r st)) =
     Some (stops (snd (addStop parseISO toNumber uuid formData r st))) \<and>
   trace (snd (addStop parseISO toNumber uuid formData r st)) =
     trace st @ SetItemStops (stops (snd (addStop parseISO toNumber uuid formData r st))) #
       (if isOnline st \<and> supabase st
        then Upsert (stops (snd (addStop parseISO toNumber uuid formData r st))) #
             error_log (failure_of r)
        else [])"
proof (intro conjI)
  show "fst (addStop parseISO toNumber uuid formData r st) = Normal"
    by (rule addStop_syncData)
  show "length (stops (snd (addStop parseISO toNumber uuid formData r st))) = Suc (length (stops st))"
    by (simp add: addStop_stops length_sort_js)
  show "set (stops (snd (addStop parseISO toNumber uuid formData r st))) =
     insert (newStop toNumber uuid formData st) (set (stops st))"
    by (simp add: addStop_stops set_sort_js)
  show "title (newStop toNumber uuid formData st) = fd_title formData"
    "address (newStop toNumber uuid formData st) = fd_address formData"
    "dateTime (newStop toNumber uuid formData st) = fd_date formData @ ''T'' @ fd_time formData"
    by (simp_all add: newStop_def)
  show "kitatour_stops (snd (addStop parseISO toNumber uuid formData r st)) =
     Some (stops (snd (addStop parseISO toNumber uuid formData r st)))"
    by (simp add: addStop_syncData(1) syncData_stops syncData_kitatour)
  show "trace (snd (addStop parseISO toNumber uuid formData r st)) =
     trace st @ SetItemStops (stops (snd (addStop parseISO toNumber uuid formData r st))) #
       (if isOnline st \<and> supabase st
        then Upsert (stops (snd (addStop parseISO toNumber uuid formData r st))) #
             error_log (failure_of r)
        else [])"
    by (simp add: addStop_syncData(1) syncData_stops syncData_trace)
qed

theorem addStop_empty_fields_counterexample:
  "fd_title (sample_form [] ''2024-05-01'' ''08:00'') = [] \<and>
   addStop sample_parseISO sample_toNumber ''u1'' (sample_form [] ''2024-05-01'' ''08:00'')
       (Resolves None None) (sample_app [] True) =
     (Normal, (sample_app [sample_stop ''u1'' [] ''2024-05-01T08:00'' planned 0] True)
        \<lparr>trace := [SetItemStops [sample_stop ''u1'' [] ''2024-05-01T08:00'' planned 0],
                   Upsert [sample_stop ''u1'' [] ''2024-05-01T08:00'' planned 0]]\<rparr>) \<and>
   fd_date (sample_form ''Candi Borobudur'' [] []) = [] \<and>
   fd_time (sample_form ''Candi Borobudur'' [] []) = [] \<and>
   addStop sample_parseISO sample_toNumber ''u1'' (sample_form ''Candi Borobudur'' [] [])
       (Resolves None None) (sample_app [] True) =
     (Normal, (sample_app [sample_stop ''u1'' ''Candi Borobudur'' ''T'' planned 0] True)
        \<lparr>trace := [SetItemStops [sample_stop ''u1'' ''Candi Borobudur'' ''T'' planned 0],
                   Upsert [sample_stop ''u1'' ''Candi Borobudur'' ''T'' planned 0]]\<rparr>)"
  by (simp add: sample_defs run_defs)

subsection \<open>C2: visited and skipped\<close>

text \<open>
  C2, as the code has it. One call of \<open>toggleStatus\<close> moves a visited stop to skipped
  exactly when the stop has the given id and the explicit target is skipped, and moves a
  skipped stop to visited exactly when the stop has the given id and the target is
  visited or absent (the flip reads every status other than visited as planned).
\<close>

theorem visited_skipped_only_by_target:
  "\<forall>n < length (stops st).
     (status (stops st ! n) = visited \<longrightarrow>
        (status (stops (snd (toggleStatus i forceStatus r st)) ! n) = skipped \<longleftrightarrow>
           id' (stops st ! n) = i \<and> forceStatus = Some skipped)) \<and>
     (status (stops st ! n) = skipped \<longrightarrow>
        (status (stops (snd (toggleStatus i forceStatus r st)) ! n) = visited \<longleftrightarrow>
           id' (stops st ! n) = i \<and> (forceStatus = None \<or> forceStatus = Some visited)))"
  by (auto simp add: toggleStatus_nth nextStatus_def split: option.splits)

theorem visited_skipped_direct_counterexample:
  "map status (stops sample_trip) = [planned, skipped, visited] \<and>
   map status (stops (snd (toggleStatus ''b'' None (Resolves None None) sample_trip)))
     = [planned, visited, visited] \<and>
   map status (stops (snd (toggleStatus ''b'' (Some visited) (Resolves None None) sample_trip)))
     = [planned, visited, visited] \<and>
   map status (stops (snd (toggleStatus ''c'' (Some skipped) (Resolves None None) sample_trip)))
     = [planned, skipped, skipped]"
  by (simp add: toggleStatus_def syncData_stops sample_defs nextStatus_def)

theorem visited_skipped_only_by_target_witness:
  "(1::nat) < length (stops sample_trip) \<and> status (stops sample_trip ! 1) = skipped \<and>
   id' (stops sample_trip ! 1) = ''b'' \<and>
   status (stops (snd (toggleStatus ''b'' None (Rejects NetworkError) sample_trip)) ! 1) = visited \<and>
   (2::nat) < length (stops sample_trip) \<and> status (stops sample_trip ! 2) = visited \<and>
   status (stops (snd (toggleStatus ''c'' None (Rejects NetworkError) sample_trip)) ! 2) \<noteq> skipped"
  using visited_skipped_only_by_target [of sample_trip "''b''" None "Rejects NetworkError"]
        visited_skipped_only_by_target [of sample_trip "''c''" None "Rejects NetworkError"]
  by (simp add: sample_defs)

subsection \<open>C3: local cache first, remote failures harmless\<close>

text \<open>
  C3. For each of the three mutations and every answer of the remote store (success, an
  error reply, a rejected promise): the function ends normally; the collection in
  memory and the local cache both hold the full updated collection; and the effects
  performed are the write of the updated collection to the local cache first, then,
  only when online with a configured remote store, the remote request (an upsert of the
  whole collection for add and status change, a delete by id for delete), then the
  console message of a failure.
\<close>

theorem mutations_write_local_first_and_survive_remote_failure:
  "(let updated = sort_js (byDateTime parseISO) (stops st @ [newStop toNumber uuid formData st]);
        res = addStop parseISO toNumber uuid formData r st
    in fst res = Normal \<and> stops (snd res) = updated \<and> kitatour_stops (snd res) = Some updated \<and>
       trace (snd res) = trace st @ SetItemStops updated #
         (if isOnline st \<and> supabase st then Upsert updated # error_log (failure_of r) else [])) \<and>
   (let updated = map (\<lambda>s. if id' s = i then s\<lparr>status := nextStatus forceStatus s\<rparr> else s) (stops st);
        res = toggleStatus i forceStatus r st
    in fst res = Normal \<and> stops (snd res) = updated \<and> kitatour_stops (snd res) = Some updated \<and>
       trace (snd res) = trace st @ SetItemStops updated #
         (if isOnline st \<and> supabase st then Upsert updated # error_log (failure_of r) else [])) \<and>
   (let updated = filter (\<lambda>s. id' s \<noteq> i) (stops st);
        res = deleteStop i r st
    in fst res = Normal \<and> stops (snd res) = updated \<and> kitatour_stops (snd res) = Some updated \<and>
       trace (snd res) = trace st @ SetItemStops updated #
         (if isOnline st \<and> supabase st
          then Delete i # (case r of Rejects err \<Rightarrow> [ConsoleError err] | Resolves d e \<Rightarrow> [])
          else []))"
proof -
  have a: "fst (addStop parseISO toNumber uuid formData r st) = Normal"
    by (rule addStop_syncData)
  have t: "toggleStatus i forceStatus r st =
      syncData (map (\<lambda>s. if id' s = i then s\<lparr>status := nextStatus forceStatus s\<rparr> else s) (stops st)) r st"
    by (simp add: toggleStatus_def)
  show ?thesis
    unfolding Let_def
    apply (intro conjI)
               apply (rule a)
              apply (simp add: addStop_syncData(1) syncData_stops)
             apply (simp add: addStop_syncData(1) syncData_kitatour)
            apply (simp add: addStop_syncData(1) syncData_trace)
           apply (simp add: t syncData_fst)
          apply (simp add: t syncData_stops)
         apply (simp add: t syncData_kitatour)
        apply (simp add: t syncData_trace)
       apply (rule deleteStop_facts)
      apply (rule deleteStop_facts)
     apply (rule deleteStop_facts)
    apply (rule deleteStop_facts)
    done
qed

subsection \<open>C4: loading\<close>

text \<open>
  C4. When the remote fetch succeeds (online, remote store configured, a reply with data
  and no error), the stops in memory and the local cache are exactly the fetched
  collection. When the fetch fails (a rejected promise or an error reply), the stops in
  memory are those read from the local cache (those in memory before, when the cache has
  no entry) and the local cache is unchanged. In every case \<open>loadData\<close> ends normally with
  \<open>isLoading\<close> reset.
\<close>

theorem loadData_remote_wins_or_cache_kept:
  "(isOnline st \<and> supabase st \<and> r = Resolves (Some data) None \<longrightarrow>
      stops (snd (loadData r st)) = data \<and> kitatour_stops (snd (loadData r st)) = Some data) \<and>
   (failure_of r \<noteq> None \<longrightarrow>
      stops (snd (loadData r st)) = (case kitatour_stops st of Some cached \<Rightarrow> cached | None \<Rightarrow> stops st) \<and>
      kitatour_stops (snd (loadData r st)) = kitatour_stops st) \<and>
   fst (loadData r st) = Normal \<and> \<not> isLoading (snd (loadData r st))"
proof (intro conjI impI)
  show "fst (loadData r st) = Normal"
    by (simp add: loadData_unfold Let_def catch_log_fst)
  show "\<not> isLoading (snd (loadData r st))"
    by (simp add: loadData_unfold Let_def)
next
  assume "isOnline st \<and> supabase st \<and> r = Resolves (Some data) None"
  then show "stops (snd (loadData r st)) = data" "kitatour_stops (snd (loadData r st)) = Some data"
    by (simp_all add: loadData_unfold Let_def emit_def split: option.splits)
next
  assume f: "failure_of r \<noteq> None"
  then obtain err where "r = Rejects err \<or> (\<exists>d. r = Resolves d (Some err))"
    by (cases r) auto
  then show "stops (snd (loadData r st)) = (case kitatour_stops st of Some cached \<Rightarrow> cached | None \<Rightarrow> stops st)"
     "kitatour_stops (snd (loadData r st)) = kitatour_stops st"
    by (auto simp add: loadData_unfold Let_def emit_def split: option.splits)
qed

theorem loadData_remote_wins_or_cache_kept_witness:
  "isOnline sample_trip \<and> supabase sample_trip \<and>
   stops (snd (loadData (Resolves (Some []) None) sample_trip)) = [] \<and>
   kitatour_stops (snd (loadData (Resolves (Some []) None) sample_trip)) = Some [] \<and>
   failure_of (Rejects NetworkError :: Stop list reply) \<noteq> None \<and>
   stops (snd (loadData (Rejects NetworkError) (sample_trip\<lparr>stops := []\<rparr>))) = stops sample_trip \<and>
   kitatour_stops (snd (loadData (Rejects NetworkError) (sample_trip\<lparr>stops := []\<rparr>)))
     = Some (stops sample_trip)"
  using loadData_remote_wins_or_cache_kept [of sample_trip "Resolves (Some []) None" "[]"]
    loadData_remote_wins_or_cache_kept [of "sample_trip\<lparr>stops := []\<rparr>" "Rejects NetworkError"]
  by (simp add: sample_trip_def sample_app_def)

subsection \<open>C5: order of the insight resolution\<close>

text \<open>
  C5. A cache entry under the stop's id is shown as it is and nothing else changes.
  Without an entry and offline, the keyword fallback for the title is shown and nothing
  else changes. Without an entry and online, when the request rejects, or the response's
  text does not parse, or the text is missing or empty and \<^verbatim>\<open>'{}'\<close> does not parse, the fallback
  is shown and the insight cache is unchanged. The fallback is decided by the lower-cased
  title: the beach answer when it contains "pantai"; else the heritage answer when it
  contains "candi" or "museum"; else the food answer when it contains "makan", "resto" or
  "kuliner"; else the default answer; each with the same weather and recommendation
  texts. The insight cache changes only when online, without an entry, on a response
  whose text parsed, and then the parsed value is what is shown and stored under the
  stop's id.
\<close>

theorem insight_resolution_order:
  "(\<forall>cached. ai_cache st (id' stop) = Some cached \<longrightarrow>
      fetchAiInsights toLowerCase JSON_parse r stop st = (Normal, st\<lparr>aiInsights := cached\<rparr>)) \<and>
   (ai_cache st (id' stop) = None \<and> \<not> isOnline st \<longrightarrow>
      fetchAiInsights toLowerCase JSON_parse r stop st =
        (Normal, st\<lparr>aiInsights := getSmartFallback toLowerCase (title stop)\<rparr>)) \<and>
   (ai_cache st (id' stop) = None \<and> isOnline st \<and>
    ((\<exists>err. r = AiRejects err) \<or>
     (\<exists>t. r = AiResponse (Some t) \<and> t \<noteq> [] \<and> JSON_parse t = None) \<or>
     ((r = AiResponse None \<or> r = AiResponse (Some [])) \<and> JSON_parse ''{}'' = None)) \<longrightarrow>
      fst (fetchAiInsights toLowerCase JSON_parse r stop st) = Normal \<and>
      aiInsights (snd (fetchAiInsights toLowerCase JSON_parse r stop st)) =
        getSmartFallback toLowerCase (title stop) \<and>
      ai_cache (snd (fetchAiInsights toLowerCase JSON_parse r stop st)) = ai_cache st) \<and>
   (includes_js (toLowerCase (title stop)) ''pantai'' \<longrightarrow>
      getSmartFallback toLowerCase (title stop) =
        JObj [(''costs'', JStr ''Biasanya ada biaya parkir & sewa payung.''),
              (''weather'', JStr ''Cek langit secara manual (Mode Offline)''),
              (''recommendations'', JStr ''Tanya warga lokal untuk spot terbaik.''),
              (''tips'', JStr ''Bawa sunblock, baju ganti, dan kacamata hitam.'')]) \<and>
   (\<not> includes_js (toLowerCase (title stop)) ''pantai'' \<and>
    (includes_js (toLowerCase (title stop)) ''candi'' \<or>
     includes_js (toLowerCase (title stop)) ''museum'') \<longrightarrow>
      getSmartFallback toLowerCase (title stop) =
        JObj [(''costs'', JStr ''Siapkan biaya tiket masuk (biasanya Rp 20rb - 100rb).''),
              (''weather'', JStr ''Cek langit secara manual (Mode Offline)''),
              (''recommendations'', JStr ''Tanya warga lokal untuk spot terbaik.''),
              (''tips'', JStr ''Gunakan sepatu nyaman dan bawa topi.'')]) \<and>
   (\<not> includes_js (toLowerCase (title stop)) ''pantai'' \<and>
    \<not> includes_js (toLowerCase (title stop)) ''candi'' \<and>
    \<not> includes_js (toLowerCase (title stop)) ''museum'' \<and>
    (includes_js (toLowerCase (title stop)) ''makan'' \<or>
     includes_js (toLowerCase (title stop)) ''resto'' \<or>
     includes_js (toLowerCase (title stop)) ''kuliner'') \<longrightarrow>
      getSmartFallback toLowerCase (title stop) =
        JObj [(''costs'', JStr ''Estimasi Rp 50rb - 150rb per orang.''),
              (''weather'', JStr ''Cek langit secara manual (Mode Offline)''),
              (''recommendations'', JStr ''Tanya warga lokal untuk spot terbaik.''),
              (''tips'', JStr ''Cek ulasan terbaru untuk menu andalan.'')]) \<and>
   (\<not> includes_js (toLowerCase (title stop)) ''pantai'' \<and>
    \<not> includes_js (toLowerCase (title stop)) ''candi'' \<and>
    \<not> includes_js (toLowerCase (title stop)) ''museum'' \<and>
    \<not> includes_js (toLowerCase (title stop)) ''makan'' \<and>
    \<not> includes_js (toLowerCase (title stop)) ''resto'' \<and>
    \<not> includes_js (toLowerCase (title stop)) ''kuliner'' \<longrightarrow>
      getSmartFallback toLowerCase (title stop) =
        JObj [(''costs'', JStr ''Siapkan uang tunai untuk parkir/jajan.''),
              (''weather'', JStr ''Cek langit secara manual (Mode Offline)''),
              (''recommendations'', JStr ''Tanya warga lokal untuk spot terbaik.''),
              (''tips'', JStr ''Siapkan peta offline dan air minum.'')]) \<and>
   (ai_cache (snd (fetchAiInsights toLowerCase JSON_parse r stop st)) \<noteq> ai_cache st \<longrightarrow>
      isOnline st \<and> ai_cache st (id' stop) = None \<and>
      (\<exists>data.
         ((\<exists>t. r = AiResponse (Some t) \<and> t \<noteq> [] \<and> JSON_parse t = Some data) \<or>
          ((r = AiResponse None \<or> r = AiResponse (Some [])) \<and> JSON_parse ''{}'' = Some data)) \<and>
         aiInsights (snd (fetchAiInsights toLowerCase JSON_parse r stop st)) = data \<and>
         ai_cache (snd (fetchAiInsights toLowerCase JSON_parse r stop st)) =
           (ai_cache st)(id' stop \<mapsto> data)))"
proof (intro conjI allI impI)
  fix cached
  assume "ai_cache st (id' stop) = Some cached"
  then show "fetchAiInsights toLowerCase JSON_parse r stop st = (Normal, st\<lparr>aiInsights := cached\<rparr>)"
    by (rule fetch_cached)
next
  assume "ai_cache st (id' stop) = None \<and> \<not> isOnline st"
  then show "fetchAiInsights toLowerCase JSON_parse r stop st =
        (Normal, st\<lparr>aiInsights := getSmartFallback toLowerCase (title stop)\<rparr>)"
    by (simp add: fetch_offline)
next
  assume a: "ai_cache st (id' stop) = None \<and> isOnline st \<and>
    ((\<exists>err. r = AiRejects err) \<or>
     (\<exists>t. r = AiResponse (Some t) \<and> t \<noteq> [] \<and> JSON_parse t = None) \<or>
     ((r = AiResponse None \<or> r = AiResponse (Some [])) \<and> JSON_parse ''{}'' = None))"
  then have "(\<exists>err. r = AiRejects err) \<or>
     (\<exists>t. r = AiResponse t \<and> JSON_parse (text_or_empty_object t) = None)"
    by (auto simp add: text_or_empty_object_cases)
  with a show "fst (fetchAiInsights toLowerCase JSON_parse r stop st) = Normal"
    "aiInsights (snd (fetchAiInsights toLowerCase JSON_parse r stop st)) =
       getSmartFallback toLowerCase (title stop)"
    "ai_cache (snd (fetchAiInsights toLowerCase JSON_parse r stop st)) = ai_cache st"
    by (auto simp add: fetch_online_rejects fetch_online_unparsed)
next
  assume "includes_js (toLowerCase (title stop)) ''pantai''"
  then show "getSmartFallback toLowerCase (title stop) =
        JObj [(''costs'', JStr ''Biasanya ada biaya parkir & sewa payung.''),
              (''weather'', JStr ''Cek langit secara manual (Mode Offline)''),
              (''recommendations'', JStr ''Tanya warga lokal untuk spot terbaik.''),
              (''tips'', JStr ''Bawa sunblock, baju ganti, dan kacamata hitam.'')]"
    by (rule fallback_beach)
next
  assume "\<not> includes_js (toLowerCase (title stop)) ''pantai'' \<and>
    (includes_js (toLowerCase (title stop)) ''candi'' \<or>
     includes_js (toLowerCase (title stop)) ''museum'')"
  then show "getSmartFallback toLowerCase (title stop) =
        JObj [(''costs'', JStr ''Siapkan biaya tiket masuk (biasanya Rp 20rb - 100rb).''),
              (''weather'', JStr ''Cek langit secara manual (Mode Offline)''),
              (''recommendations'', JStr ''Tanya warga lokal untuk spot terbaik.''),
              (''tips'', JStr ''Gunakan sepatu nyaman dan bawa topi.'')]"
    by (intro fallback_heritage) simp_all
next
  assume "\<not> includes_js (toLowerCase (title stop)) ''pantai'' \<and>
    \<not> includes_js (toLowerCase (title stop)) ''candi'' \<and>
    \<not> includes_js (toLowerCase (title stop)) ''museum'' \<and>
    (includes_js (toLowerCase (title stop)) ''makan'' \<or>
     includes_js (toLowerCase (title stop)) ''resto'' \<or>
     includes_js (toLowerCase (title stop)) ''kuliner'')"
  then show "getSmartFallback toLowerCase (title stop) =
        JObj [(''costs'', JStr ''Estimasi Rp 50rb - 150rb per orang.''),
              (''weather'', JStr ''Cek langit secara manual (Mode Offline)''),
              (''recommendations'', JStr ''Tanya warga lokal untuk spot terbaik.''),
              (''tips'', JStr ''Cek ulasan terbaru untuk menu andalan.'')]"
    by (intro fallback_food) simp_all
next
  assume "\<not> includes_js (toLowerCase (title stop)) ''pantai'' \<and>
    \<not> includes_js (toLowerCase (title stop)) ''candi'' \<and>
    \<not> includes_js (toLowerCase (title stop)) ''museum'' \<and>
    \<not> includes_js (toLowerCase (title stop)) ''makan'' \<and>
    \<not> includes_js (toLowerCase (title stop)) ''resto'' \<and>
    \<not> includes_js (toLowerCase (title stop)) ''kuliner''"
  then show "getSmartFallback toLowerCase (title stop) =
        JObj [(''costs'', JStr ''Siapkan uang tunai untuk parkir/jajan.''),
              (''weather'', JStr ''Cek langit secara manual (Mode Offline)''),
              (''recommendations'', JStr ''Tanya warga lokal untuk spot terbaik.''),
              (''tips'', JStr ''Siapkan peta offline dan air minum.'')]"
    by (intro fallback_default) simp_all
next
  assume c: "ai_cache (snd (fetchAiInsights toLowerCase JSON_parse r stop st)) \<noteq> ai_cache st"
  show n: "ai_cache st (id' stop) = None"
  proof (rule ccontr)
    assume "ai_cache st (id' stop) \<noteq> None"
    then obtain cached where "ai_cache st (id' stop) = Some cached" by blast
    with c show False by (simp add: fetch_cached)
  qed
  show o: "isOnline st"
  proof (rule ccontr)
    assume "\<not> isOnline st"
    with n c show False by (simp add: fetch_offline)
  qed
  show "\<exists>data.
         ((\<exists>t. r = AiResponse (Some t) \<and> t \<noteq> [] \<and> JSON_parse t = Some data) \<or>
          ((r = AiResponse None \<or> r = AiResponse (Some [])) \<and> JSON_parse ''{}'' = Some data)) \<and>
         aiInsights (snd (fetchAiInsights toLowerCase JSON_parse r stop st)) = data \<and>
         ai_cache (snd (fetchAiInsights toLowerCase JSON_parse r stop st)) =
           (ai_cache st)(id' stop \<mapsto> data)"
  proof (cases r)
    case (AiRejects e)
    with n o c show ?thesis by (simp add: fetch_online_rejects)
  next
    case (AiResponse t)
    show ?thesis
    proof (cases "JSON_parse (text_or_empty_object t)")
      case None
      with n o c AiResponse show ?thesis by (simp add: fetch_online_unparsed)
    next
      case (Some data)
      have f: "aiInsights (snd (fetchAiInsights toLowerCase JSON_parse r stop st)) = data \<and>
         ai_cache (snd (fetchAiInsights toLowerCase JSON_parse r stop st)) =
           (ai_cache st)(id' stop \<mapsto> data)"
        using n o AiResponse Some by (simp add: fetch_online_parsed)
      have "(\<exists>t'. r = AiResponse (Some t') \<and> t' \<noteq> [] \<and> JSON_parse t' = Some data) \<or>
          ((r = AiResponse None \<or> r = AiResponse (Some [])) \<and> JSON_parse ''{}'' = Some data)"
      proof (cases t)
        case None
        with Some AiResponse show ?thesis by (simp add: text_or_empty_object_cases)
      next
        case (Some t')
        with \<open>JSON_parse (text_or_empty_object t) = Some data\<close> AiResponse show ?thesis
          by (cases "t' = []") (simp_all add: text_or_empty_object_cases)
      qed
      with f show ?thesis by blast
    qed
  qed
qed

theorem insight_resolution_order_witness:
  "ai_cache ((sample_app [] False)\<lparr>ai_cache := [''b'' \<mapsto> JObj []]\<rparr>) (id' sample_pantai)
     = Some (JObj []) \<and>
   aiInsights (snd (fetchAiInsights sample_toLowerCase sample_JSON_parse (AiRejects NetworkError)
      sample_pantai ((sample_app [] False)\<lparr>ai_cache := [''b'' \<mapsto> JObj []]\<rparr>))) = JObj [] \<and>
   ai_cache (sample_app [] False) (id' sample_pantai) = None \<and>
   \<not> isOnline (sample_app [] False) \<and>
   includes_js (sample_toLowerCase (title sample_pantai)) ''pantai'' \<and>
   field ''tips'' (aiInsights (snd (fetchAiInsights sample_toLowerCase sample_JSON_parse
      (AiRejects NetworkError) sample_pantai (sample_app [] False))))
     = Some (JStr ''Bawa sunblock, baju ganti, dan kacamata hitam.'') \<and>
   ai_cache (snd (fetchAiInsights sample_toLowerCase sample_JSON_parse (AiRejects NetworkError)
      sample_pantai (sample_app [] False))) = ai_cache (sample_app [] False) \<and>
   isOnline (sample_app [] True) \<and>
   ''not json'' \<noteq> [] \<and> sample_JSON_parse ''not json'' = None \<and>
   aiInsights (snd (fetchAiInsights sample_toLowerCase sample_JSON_parse
      (AiResponse (Some ''not json'')) sample_pantai (sample_app [] True)))
     = getSmartFallback sample_toLowerCase (title sample_pantai) \<and>
   ai_cache (snd (fetchAiInsights sample_toLowerCase sample_JSON_parse
      (AiResponse (Some ''not json'')) sample_pantai (sample_app [] True)))
     = ai_cache (sample_app [] True) \<and>
   ai_cache (snd (fetchAiInsights sample_toLowerCase sample_JSON_parse (AiResponse (Some ''{}''))
      sample_pantai (sample_app [] True))) \<noteq> ai_cache (sample_app [] True) \<and>
   field ''tips'' (getSmartFallback sample_toLowerCase (title sample_candi))
     = Some (JStr ''Gunakan sepatu nyaman dan bawa topi.'') \<and>
   field ''tips'' (getSmartFallback sample_toLowerCase ''Warung Makan Bu Ageng'')
     = Some (JStr ''Cek ulasan terbaru untuk menu andalan.'') \<and>
   field ''tips'' (getSmartFallback sample_toLowerCase ''Alun-alun Kidul'')
     = Some (JStr ''Siapkan peta offline dan air minum.'') \<and>
   field ''tips'' (getSmartFallback sample_toLowerCase (''PANTA'' @ [CHR 0xC4, CHR 0xB0]))
     = Some (JStr ''Bawa sunblock, baju ganti, dan kacamata hitam.'')"
proof -
  let ?s = sample_pantai
  let ?L = sample_toLowerCase
  have t: "title ?s = ''Pantai Parangtritis''" "id' ?s = ''b''"
    by (simp_all add: sample_pantai_def sample_stop_def)
  have c: "ai_cache ((sample_app [] False)\<lparr>ai_cache := [''b'' \<mapsto> JObj []]\<rparr>) (id' ?s) = Some (JObj [])"
    by (simp add: t)
  have n: "ai_cache (sample_app [] online) (id' ?s) = None" for online
    by (simp add: sample_app_def)
  have off: "\<not> isOnline (sample_app [] False)" and on: "isOnline (sample_app [] True)"
    by (simp_all add: sample_app_def)
  have ne: "''not json'' \<noteq> []" by simp
  have p: "sample_JSON_parse ''not json'' = None"
    by (simp add: sample_JSON_parse_def sample_tips_text_def)
  have q: "sample_JSON_parse (text_or_empty_object (Some ''{}'')) = Some (JObj [])"
    by (simp add: sample_JSON_parse_def text_or_empty_object_def)
  have i: "includes_js (?L (title ?s)) ''pantai''"
    by (simp add: t lower_char_def)
  note th = insight_resolution_order [where toLowerCase = ?L and JSON_parse = sample_JSON_parse]
  have 1: "aiInsights (snd (fetchAiInsights ?L sample_JSON_parse (AiRejects NetworkError) ?s
      ((sample_app [] False)\<lparr>ai_cache := [''b'' \<mapsto> JObj []]\<rparr>))) = JObj []"
    using th [of "(sample_app [] False)\<lparr>ai_cache := [''b'' \<mapsto> JObj []]\<rparr>" ?s "AiRejects NetworkError"] c
    by simp
  have 2: "fetchAiInsights ?L sample_JSON_parse (AiRejects NetworkError) ?s (sample_app [] False) =
      (Normal, (sample_app [] False)\<lparr>aiInsights := getSmartFallback ?L (title ?s)\<rparr>)"
    using th [of "sample_app [] False" ?s "AiRejects NetworkError"] n off by blast
  have 3: "getSmartFallback ?L (title ?s) =
        JObj [(''costs'', JStr ''Biasanya ada biaya parkir & sewa payung.''),
              (''weather'', JStr ''Cek langit secara manual (Mode Offline)''),
              (''recommendations'', JStr ''Tanya warga lokal untuk spot terbaik.''),
              (''tips'', JStr ''Bawa sunblock, baju ganti, dan kacamata hitam.'')]"
    using th [of "sample_app [] False" ?s "AiRejects NetworkError"] i by blast
  have 4: "aiInsights (snd (fetchAiInsights ?L sample_JSON_parse (AiResponse (Some ''not json'')) ?s
      (sample_app [] True))) = getSmartFallback ?L (title ?s) \<and>
     ai_cache (snd (fetchAiInsights ?L sample_JSON_parse (AiResponse (Some ''not json'')) ?s
      (sample_app [] True))) = ai_cache (sample_app [] True)"
    using th [of "sample_app [] True" ?s "AiResponse (Some ''not json'')"] n on p ne by blast
  have 5: "ai_cache (snd (fetchAiInsights ?L sample_JSON_parse (AiResponse (Some ''{}'')) ?s
      (sample_app [] True))) \<noteq> ai_cache (sample_app [] True)"
    using n [of True] on q by (simp add: fetch_online_parsed sample_app_def)
  have 6: "field ''tips'' (aiInsights (snd (fetchAiInsights ?L sample_JSON_parse (AiRejects NetworkError)
      ?s (sample_app [] False))))
     = Some (JStr ''Bawa sunblock, baju ganti, dan kacamata hitam.'')"
    by (simp add: 2 3)
  have 7: "ai_cache (snd (fetchAiInsights ?L sample_JSON_parse (AiRejects NetworkError)
      ?s (sample_app [] False))) = ai_cache (sample_app [] False)"
    by (simp add: 2)
  have tc: "title sample_candi = ''Candi Borobudur''"
    by (simp add: sample_candi_def sample_stop_def)
  have 8: "field ''tips'' (getSmartFallback ?L (title sample_candi))
     = Some (JStr ''Gunakan sepatu nyaman dan bawa topi.'')"
  proof -
    have "\<not> includes_js (?L (title sample_candi)) ''pantai'' \<and>
      (includes_js (?L (title sample_candi)) ''candi'' \<or> includes_js (?L (title sample_candi)) ''museum'')"
      by (simp add: tc lower_char_def)
    with th [of "sample_app [] False" sample_candi "AiRejects NetworkError"]
    have "getSmartFallback ?L (title sample_candi) =
        JObj [(''costs'', JStr ''Siapkan biaya tiket masuk (biasanya Rp 20rb - 100rb).''),
              (''weather'', JStr ''Cek langit secara manual (Mode Offline)''),
              (''recommendations'', JStr ''Tanya warga lokal untuk spot terbaik.''),
              (''tips'', JStr ''Gunakan sepatu nyaman dan bawa topi.'')]"
      by blast
    then show ?thesis by simp
  qed
  have 9: "field ''tips'' (getSmartFallback ?L ''Warung Makan Bu Ageng'')
     = Some (JStr ''Cek ulasan terbaru untuk menu andalan.'')"
  proof -
    let ?w = "sample_candi\<lparr>title := ''Warung Makan Bu Ageng''\<rparr>"
    have "\<not> includes_js (?L (title ?w)) ''pantai'' \<and>
      \<not> includes_js (?L (title ?w)) ''candi'' \<and> \<not> includes_js (?L (title ?w)) ''museum'' \<and>
      (includes_js (?L (title ?w)) ''makan'' \<or> includes_js (?L (title ?w)) ''resto'' \<or>
       includes_js (?L (title ?w)) ''kuliner'')"
      by (simp add: lower_char_def)
    with th [of "sample_app [] False" ?w "AiRejects NetworkError"]
    have "getSmartFallback ?L (title ?w) =
        JObj [(''costs'', JStr ''Estimasi Rp 50rb - 150rb per orang.''),
              (''weather'', JStr ''Cek langit secara manual (Mode Offline)''),
              (''recommendations'', JStr ''Tanya warga lokal untuk spot terbaik.''),
              (''tips'', JStr ''Cek ulasan terbaru untuk menu andalan.'')]"
      by blast
    then show ?thesis by simp
  qed
  have 10: "field ''tips'' (getSmartFallback ?L ''Alun-alun Kidul'')
     = Some (JStr ''Siapkan peta offline dan air minum.'')"
  proof -
    let ?w = "sample_candi\<lparr>title := ''Alun-alun Kidul''\<rparr>"
    have "\<not> includes_js (?L (title ?w)) ''pantai'' \<and>
      \<not> includes_js (?L (title ?w)) ''candi'' \<and> \<not> includes_js (?L (title ?w)) ''museum'' \<and>
      \<not> includes_js (?L (title ?w)) ''makan'' \<and> \<not> includes_js (?L (title ?w)) ''resto'' \<and>
      \<not> includes_js (?L (title ?w)) ''kuliner''"
      by (simp add: lower_char_def)
    with th [of "sample_app [] False" ?w "AiRejects NetworkError"]
    have "getSmartFallback ?L (title ?w) =
        JObj [(''costs'', JStr ''Siapkan uang tunai untuk parkir/jajan.''),
              (''weather'', JStr ''Cek langit secara manual (Mode Offline)''),
              (''recommendations'', JStr ''Tanya warga lokal untuk spot terbaik.''),
              (''tips'', JStr ''Siapkan peta offline dan air minum.'')]"
      by blast
    then show ?thesis by simp
  qed
  have 11: "field ''tips'' (getSmartFallback ?L (''PANTA'' @ [CHR 0xC4, CHR 0xB0]))
     = Some (JStr ''Bawa sunblock, baju ganti, dan kacamata hitam.'')"
  proof -
    let ?w = "sample_candi\<lparr>title := ''PANTA'' @ [CHR 0xC4, CHR 0xB0]\<rparr>"
    have "includes_js (?L (title ?w)) ''pantai''"
      by (simp add: lower_char_def)
    with th [of "sample_app [] False" ?w "AiRejects NetworkError"]
    have "getSmartFallback ?L (title ?w) =
        JObj [(''costs'', JStr ''Biasanya ada biaya parkir & sewa payung.''),
              (''weather'', JStr ''Cek langit secara manual (Mode Offline)''),
              (''recommendations'', JStr ''Tanya warga lokal untuk spot terbaik.''),
              (''tips'', JStr ''Bawa sunblock, baju ganti, dan kacamata hitam.'')]"
      by blast
    then show ?thesis by simp
  qed
  show ?thesis
    by (intro conjI c 1 n off i 6 7 on ne p conjunct1 [OF 4] conjunct2 [OF 4] 5 8 9 10 11)
qed

subsection \<open>C6: toggleStatus\<close>

text \<open>
  C6. \<open>toggleStatus\<close> keeps the length of the collection; a stop with the given id gets
  exactly the explicit target as status when one is given, and otherwise planned when it
  was visited and visited when it was not; every other stop is unchanged. When no stop
  has the id, the collection is unchanged and the call is the persist cycle
  \<open>syncData\<close> on the unchanged collection. In every case the call ends normally, the
  local cache holds the resulting collection, and the effects are the local write
  followed, when online with a configured remote store, by the upsert.
\<close>

theorem toggleStatus_sets_target_or_flips:
  "length (stops (snd (toggleStatus i forceStatus r st))) = length (stops st) \<and>
   (\<forall>n target. n < length (stops st) \<and> id' (stops st ! n) = i \<and> forceStatus = Some target \<longrightarrow>
      stops (snd (toggleStatus i forceStatus r st)) ! n = (stops st ! n)\<lparr>status := target\<rparr>) \<and>
   (\<forall>n. n < length (stops st) \<and> id' (stops st ! n) = i \<and> forceStatus = None \<longrightarrow>
      stops (snd (toggleStatus i forceStatus r st)) ! n =
        (stops st ! n)\<lparr>status := (if status (stops st ! n) = visited then planned else visited)\<rparr>) \<and>
   (\<forall>n. n < length (stops st) \<and> id' (stops st ! n) \<noteq> i \<longrightarrow>
      stops (snd (toggleStatus i forceStatus r st)) ! n = stops st ! n) \<and>
   (i \<notin> id' ` set (stops st) \<longrightarrow>
      stops (snd (toggleStatus i forceStatus r st)) = stops st \<and>
      toggleStatus i forceStatus r st = syncData (stops st) r st) \<and>
   fst (toggleStatus i forceStatus r st) = Normal \<and>
   kitatour_stops (snd (toggleStatus i forceStatus r st)) =
     Some (stops (snd (toggleStatus i forceStatus r st))) \<and>
   trace (snd (toggleStatus i forceStatus r st)) =
     trace st @ SetItemStops (stops (snd (toggleStatus i forceStatus r st))) #
       (if isOnline st \<and> supabase st
        then Upsert (stops (snd (toggleStatus i forceStatus r st))) # error_log (failure_of r)
        else [])"
proof -
  let ?u = "map (\<lambda>s. if id' s = i then s\<lparr>status := nextStatus forceStatus s\<rparr> else s) (stops st)"
  have t: "toggleStatus i forceStatus r st = syncData ?u r st"
    by (simp add: toggleStatus_def)
  have s: "stops (snd (toggleStatus i forceStatus r st)) = ?u"
    by (simp add: t syncData_stops)
  have nf: "i \<notin> id' ` set (stops st) \<Longrightarrow> ?u = stops st"
    by (rule map_idI) auto
  show ?thesis
    unfolding s
    apply (intro conjI allI impI)
           apply (simp_all add: nextStatus_def nf)
       apply (simp add: t nf)
      apply (simp add: t syncData_fst)
     apply (simp add: t syncData_kitatour)
    apply (simp add: t syncData_trace)
    done
qed

theorem toggleStatus_sets_target_or_flips_witness:
  "''zz'' \<notin> id' ` set (stops sample_trip) \<and>
   toggleStatus ''zz'' None (Rejects NetworkError) sample_trip =
     (Normal, sample_trip\<lparr>trace := [SetItemStops (stops sample_trip), Upsert (stops sample_trip),
                                      ConsoleError NetworkError]\<rparr>) \<and>
   (1::nat) < length (stops sample_trip) \<and> id' (stops sample_trip ! 1) = ''b'' \<and>
   status (stops sample_trip ! 1) = skipped \<and>
   status (stops (snd (toggleStatus ''b'' (Some planned) (Rejects NetworkError) sample_trip)) ! 1) = planned \<and>
   status (stops (snd (toggleStatus ''b'' None (Rejects NetworkError) sample_trip)) ! 1) = visited \<and>
   (0::nat) < length (stops sample_trip) \<and> id' (stops sample_trip ! 0) \<noteq> ''b'' \<and>
   stops (snd (toggleStatus ''b'' None (Rejects NetworkError) sample_trip)) ! 0 = stops sample_trip ! 0"
  using toggleStatus_sets_target_or_flips [of "''zz''" None "Rejects NetworkError" sample_trip]
    toggleStatus_sets_target_or_flips [of "''b''" "Some planned" "Rejects NetworkError" sample_trip]
    toggleStatus_sets_target_or_flips [of "''b''" None "Rejects NetworkError" sample_trip]
  by (simp add: sample_defs run_defs)

subsection \<open>C7: nextStop\<close>

text \<open>
  C7, as the code has it. \<open>nextStop\<close> is none exactly when no stop is planned; otherwise it
  is a stop of the collection whose status is planned, the first such stop of
  \<open>sortedStops\<close>. When the dates of the collection are all valid, no planned stop has an
  earlier date, and among the planned stops with the same date it is the first one in
  the collection's order.
\<close>

theorem nextStop_earliest_planned:
  "(nextStop parseISO st = None \<longleftrightarrow> (\<forall>s\<in>set (stops st). status s \<noteq> planned)) \<and>
   (\<forall>s. nextStop parseISO st = Some s \<longrightarrow>
      s \<in> set (stops st) \<and> status s = planned \<and>
      find (\<lambda>x. status x = planned) (sortedStops parseISO st) = Some s \<and>
      ((\<forall>x\<in>set (stops st). getTime parseISO x \<noteq> None) \<longrightarrow>
         (\<forall>s'\<in>set (stops st). status s' = planned \<longrightarrow> notAfter parseISO s s') \<and>
         find (\<lambda>x. status x = planned \<and> getTime parseISO x = getTime parseISO s) (stops st) = Some s))"
proof (intro conjI allI impI)
  show "nextStop parseISO st = None \<longleftrightarrow> (\<forall>s\<in>set (stops st). status s \<noteq> planned)"
    by (auto simp add: nextStop_def sortedStops_def find_None_iff set_sort_js)
next
  fix s
  assume n: "nextStop parseISO st = Some s"
  let ?ys = "sortedStops parseISO st"
  let ?P = "\<lambda>x. status x = planned"
  from n obtain i where i: "i < length ?ys" "?P (?ys ! i)" "s = ?ys ! i" "\<forall>j<i. \<not> ?P (?ys ! j)"
    unfolding nextStop_def find_Some_iff by blast
  have sets: "set ?ys = set (stops st)"
    by (simp add: sortedStops_def set_sort_js)
  from i sets show mem: "s \<in> set (stops st)"
    using nth_mem by blast
  from i show "status s = planned" by simp
  from n show "find ?P ?ys = Some s" by (simp add: nextStop_def)
  assume valid: "\<forall>x\<in>set (stops st). getTime parseISO x \<noteq> None"
  have srt: "sorted_wrt (notAfter parseISO) ?ys"
    unfolding sortedStops_def by (rule sorted_sort_js [OF valid])
  show "\<forall>s'\<in>set (stops st). status s' = planned \<longrightarrow> notAfter parseISO s s'"
  proof (intro ballI impI)
    fix s'
    assume s': "s' \<in> set (stops st)" "status s' = planned"
    then obtain k where k: "k < length ?ys" "?ys ! k = s'"
      using sets by (metis in_set_conv_nth)
    with s' i(4) have "\<not> k < i" by auto
    then consider "k = i" | "i < k" by linarith
    then show "notAfter parseISO s s'"
    proof cases
      case 1
      with k i(3) have "s' = s" by simp
      with mem valid show ?thesis by (auto simp add: notAfter_def)
    next
      case 2
      with srt k i(3) show ?thesis
        by (auto simp add: sorted_wrt_iff_nth_less)
    qed
  qed
  let ?Q = "\<lambda>x. status x = planned \<and> getTime parseISO x = getTime parseISO s"
  from mem valid obtain t where t: "getTime parseISO s = Some t" by auto
  have "filter ?Q ys = filter ?P (filter (\<lambda>x. getTime parseISO x = Some t) ys)" for ys
    by (simp add: t conj_commute)
  then have fq: "filter ?Q ?ys = filter ?Q (stops st)"
    unfolding sortedStops_def by (simp only: stable_sort_js [OF valid])
  have "find ?Q ?ys = Some s"
    unfolding find_Some_iff using i by auto
  then show "find ?Q (stops st) = Some s"
    by (simp only: find_filter_hd [of ?Q] fq)
qed

theorem nextStop_later_planned_counterexample:
  "stops (sample_app [] False) = [] \<and>
   nextStop sample_parseISO
      (addStops sample_parseISO sample_toNumber sample_three_adds (sample_app [] False)) =
     Some (sample_stop ''u1'' ''Candi Borobudur'' ''2024-05-01T09:00'' planned 0) \<and>
   getTime sample_parseISO (sample_stop ''u1'' ''Candi Borobudur'' ''2024-05-01T09:00'' planned 0)
     = Some 1714554000000 \<and>
   sample_stop ''u3'' ''Pantai Parangtritis'' ''2024-05-01T08:00'' planned 2
     \<in> set (stops (addStops sample_parseISO sample_toNumber sample_three_adds (sample_app [] False))) \<and>
   status (sample_stop ''u3'' ''Pantai Parangtritis'' ''2024-05-01T08:00'' planned 2) = planned \<and>
   getTime sample_parseISO (sample_stop ''u3'' ''Pantai Parangtritis'' ''2024-05-01T08:00'' planned 2)
     = Some 1714550400000 \<and>
   (1714550400000 :: int) < 1714554000000"
proof -
  have a: "nextStop sample_parseISO
      (addStops sample_parseISO sample_toNumber sample_three_adds (sample_app [] False)) =
     Some (sample_stop ''u1'' ''Candi Borobudur'' ''2024-05-01T09:00'' planned 0)"
    unfolding nextStop_def sample_three_adds_sorted by (simp add: sample_stop_def)
  have e: "stops (sample_app [] False) = []" by (simp add: sample_app_def)
  have g1: "getTime sample_parseISO (sample_stop ''u1'' ''Candi Borobudur'' ''2024-05-01T09:00'' planned 0)
     = Some 1714554000000"
    by (simp add: getTime_def sample_stop_def sample_parseISO_def)
  have m: "sample_stop ''u3'' ''Pantai Parangtritis'' ''2024-05-01T08:00'' planned 2
     \<in> set (stops (addStops sample_parseISO sample_toNumber sample_three_adds (sample_app [] False)))"
    by (simp only: sample_three_adds_stops) simp
  have p: "status (sample_stop ''u3'' ''Pantai Parangtritis'' ''2024-05-01T08:00'' planned 2) = planned"
    by (simp add: sample_stop_def)
  have g3: "getTime sample_parseISO (sample_stop ''u3'' ''Pantai Parangtritis'' ''2024-05-01T08:00'' planned 2)
     = Some 1714550400000"
    by (simp add: getTime_def sample_stop_def sample_parseISO_def)
  have l: "(1714550400000 :: int) < 1714554000000" by simp
  show ?thesis by (intro conjI e a g1 m p g3 l)
qed

theorem nextStop_earliest_planned_witness:
  "map (getTime sample_parseISO) (stops sample_trip) =
     [Some 1714554000000, Some 1714550400000, Some 1714636800000] \<and>
   nextStop sample_parseISO sample_trip = Some sample_candi \<and>
   status sample_candi = planned \<and>
   title sample_candi = ''Candi Borobudur'' \<and>
   find (\<lambda>x. status x = planned \<and> getTime sample_parseISO x = getTime sample_parseISO sample_candi)
     (stops sample_trip) = Some sample_candi"
proof -
  have g: "map (getTime sample_parseISO) (stops sample_trip) =
     [Some 1714554000000, Some 1714550400000, Some 1714636800000]"
    by (simp add: sample_defs getTime_def)
  have v: "\<forall>s\<in>set (stops sample_trip). getTime sample_parseISO s \<noteq> None"
    by (simp add: sample_defs getTime_def)
  have "nextStop sample_parseISO sample_trip =
        Some (sample_stop ''a'' ''Candi Borobudur'' ''2024-05-01T09:00'' planned 0)"
    by (simp add: sample_defs run_defs nextStop_def sortedStops_def)
  then have a: "nextStop sample_parseISO sample_trip = Some sample_candi"
    by (simp add: sample_candi_def)
  note th = nextStop_earliest_planned [of sample_parseISO sample_trip]
  from th a have b: "status sample_candi = planned" by blast
  from th a v have d: "find (\<lambda>x. status x = planned \<and>
      getTime sample_parseISO x = getTime sample_parseISO sample_candi) (stops sample_trip) = Some sample_candi"
    by blast
  have c: "title sample_candi = ''Candi Borobudur''"
    by (simp add: sample_defs)
  show ?thesis by (intro conjI g a b c d)
qed

subsection \<open>C8: sortedStops after a sequence of adds\<close>

text \<open>
  C8, as the code has it. Starting from the empty collection, after any sequence of calls
  of \<open>addStop\<close>, \<open>sortedStops\<close> holds one stop for each call and the same stops as the
  collection. When the date and time of every call give a valid date, it is
  non-decreasing in the date and the stops of one and the same date are in the order
  they have in the collection.
\<close>

theorem sortedStops_after_adds_nondecreasing_stable:
  assumes "stops st = []"
  shows "length (sortedStops parseISO (addStops parseISO toNumber calls st)) = length calls \<and>
         set (sortedStops parseISO (addStops parseISO toNumber calls st)) =
           set (stops (addStops parseISO toNumber calls st)) \<and>
         ((\<forall>(uuid, formData, r)\<in>set calls.
              parseISO (fd_date formData @ ''T'' @ fd_time formData) \<noteq> None) \<longrightarrow>
            sorted_wrt (notAfter parseISO)
              (sortedStops parseISO (addStops parseISO toNumber calls st)) \<and>
            (\<forall>t. filter (\<lambda>s. getTime parseISO s = Some t)
                    (sortedStops parseISO (addStops parseISO toNumber calls st)) =
                  filter (\<lambda>s. getTime parseISO s = Some t)
                    (stops (addStops parseISO toNumber calls st))))"
proof (intro conjI impI)
  have l: "length (stops (addStops parseISO toNumber calls s0)) = length (stops s0) + length calls" for s0
  proof (induction calls arbitrary: s0)
    case Nil
    then show ?case by (simp add: addStops_def)
  next
    case (Cons c calls)
    obtain u fd r where c: "c = (u, fd, r)" by (cases c)
    have "addStops parseISO toNumber (c # calls) s0 =
          addStops parseISO toNumber calls (snd (addStop parseISO toNumber u fd r s0))"
      by (simp add: addStops_def c)
    then show ?case by (simp add: Cons.IH addStop_stops length_sort_js)
  qed
  show "length (sortedStops parseISO (addStops parseISO toNumber calls st)) = length calls"
    using l [of st] assms by (simp add: sortedStops_def length_sort_js)
  show "set (sortedStops parseISO (addStops parseISO toNumber calls st)) =
           set (stops (addStops parseISO toNumber calls st))"
    by (simp add: sortedStops_def set_sort_js)
next
  assume c: "\<forall>(uuid, formData, r)\<in>set calls.
              parseISO (fd_date formData @ ''T'' @ fd_time formData) \<noteq> None"
  have v: "\<forall>s\<in>set (stops (addStops parseISO toNumber calls st)). getTime parseISO s \<noteq> None"
    by (rule addStops_valid) (use assms c in simp_all)
  show "sorted_wrt (notAfter parseISO) (sortedStops parseISO (addStops parseISO toNumber calls st))"
    unfolding sortedStops_def by (rule sorted_sort_js [OF v])
  show "\<forall>t. filter (\<lambda>s. getTime parseISO s = Some t)
                    (sortedStops parseISO (addStops parseISO toNumber calls st)) =
                  filter (\<lambda>s. getTime parseISO s = Some t)
                    (stops (addStops parseISO toNumber calls st))"
    unfolding sortedStops_def using stable_sort_js [OF v] by simp
qed

theorem sortedStops_invalid_date_counterexample:
  "stops (sample_app [] False) = [] \<and>
   map dateTime (sortedStops sample_parseISO
      (addStops sample_parseISO sample_toNumber sample_three_adds (sample_app [] False))) =
     [''2024-05-01T09:00'', ''T'', ''2024-05-01T08:00''] \<and>
   sample_parseISO ''2024-05-01T09:00'' = Some 1714554000000 \<and>
   sample_parseISO ''T'' = None \<and>
   sample_parseISO ''2024-05-01T08:00'' = Some 1714550400000 \<and>
   \<not> sorted_wrt (notAfter sample_parseISO) (sortedStops sample_parseISO
      (addStops sample_parseISO sample_toNumber sample_three_adds (sample_app [] False))) \<and>
   \<not> sorted (map (\<lambda>s. the (getTime sample_parseISO s))
      (filter (\<lambda>s. getTime sample_parseISO s \<noteq> None) (sortedStops sample_parseISO
         (addStops sample_parseISO sample_toNumber sample_three_adds (sample_app [] False)))))"
proof -
  have e: "stops (sample_app [] False) = []" by (simp add: sample_app_def)
  have d: "map dateTime (sortedStops sample_parseISO
      (addStops sample_parseISO sample_toNumber sample_three_adds (sample_app [] False))) =
     [''2024-05-01T09:00'', ''T'', ''2024-05-01T08:00'']"
    by (simp only: sample_three_adds_sorted) (simp add: sample_stop_def)
  have p: "sample_parseISO ''2024-05-01T09:00'' = Some 1714554000000"
    "sample_parseISO ''T'' = None" "sample_parseISO ''2024-05-01T08:00'' = Some 1714550400000"
    by (simp_all add: sample_parseISO_def)
  have n: "\<not> sorted_wrt (notAfter sample_parseISO) (sortedStops sample_parseISO
      (addStops sample_parseISO sample_toNumber sample_three_adds (sample_app [] False)))"
    by (simp only: sample_three_adds_sorted)
       (simp add: notAfter_def getTime_def sample_stop_def sample_parseISO_def)
  have v: "\<not> sorted (map (\<lambda>s. the (getTime sample_parseISO s))
      (filter (\<lambda>s. getTime sample_parseISO s \<noteq> None) (sortedStops sample_parseISO
         (addStops sample_parseISO sample_toNumber sample_three_adds (sample_app [] False)))))"
    by (simp only: sample_three_adds_sorted)
       (simp add: getTime_def sample_stop_def sample_parseISO_def)
  show ?thesis by (intro conjI e d p n v)
qed

theorem sortedStops_after_adds_witness:
  "stops (sample_app [] False) = [] \<and>
   map (\<lambda>(uuid, formData, r). sample_parseISO (fd_date formData @ ''T'' @ fd_time formData))
     [(''u1'', sample_form ''Candi Borobudur'' ''2024-05-01'' ''09:00'', Rejects NetworkError :: unit reply),
      (''u2'', sample_form ''Pantai Parangtritis'' ''2024-05-01'' ''08:00'', Rejects NetworkError)]
     = [Some 1714554000000, Some 1714550400000] \<and>
   map title (sortedStops sample_parseISO (addStops sample_parseISO sample_toNumber
      [(''u1'', sample_form ''Candi Borobudur'' ''2024-05-01'' ''09:00'', Rejects NetworkError),
       (''u2'', sample_form ''Pantai Parangtritis'' ''2024-05-01'' ''08:00'', Rejects NetworkError)]
      (sample_app [] False))) = [''Pantai Parangtritis'', ''Candi Borobudur''] \<and>
   sorted_wrt (notAfter sample_parseISO) (sortedStops sample_parseISO (addStops sample_parseISO sample_toNumber
      [(''u1'', sample_form ''Candi Borobudur'' ''2024-05-01'' ''09:00'', Rejects NetworkError),
       (''u2'', sample_form ''Pantai Parangtritis'' ''2024-05-01'' ''08:00'', Rejects NetworkError)]
      (sample_app [] False)))"
proof -
  let ?calls = "[(''u1'', sample_form ''Candi Borobudur'' ''2024-05-01'' ''09:00'', Rejects NetworkError :: unit reply),
       (''u2'', sample_form ''Pantai Parangtritis'' ''2024-05-01'' ''08:00'', Rejects NetworkError)]"
  have e: "stops (sample_app [] False) = []" by (simp add: sample_app_def)
  have g: "map (\<lambda>(uuid, formData, r). sample_parseISO (fd_date formData @ ''T'' @ fd_time formData)) ?calls
     = [Some 1714554000000, Some 1714550400000]"
    by (simp add: sample_form_def sample_parseISO_def)
  have v: "\<forall>(uuid, formData, r)\<in>set ?calls.
       sample_parseISO (fd_date formData @ ''T'' @ fd_time formData) \<noteq> None"
    by (simp add: sample_form_def sample_parseISO_def)
  have s: "stops (addStops sample_parseISO sample_toNumber ?calls (sample_app [] False)) =
      [sample_stop ''u2'' ''Pantai Parangtritis'' ''2024-05-01T08:00'' planned 1,
       sample_stop ''u1'' ''Candi Borobudur'' ''2024-05-01T09:00'' planned 0]"
    by (simp add: addStops_def sample_second_add)
  have m: "map title (sortedStops sample_parseISO (addStops sample_parseISO sample_toNumber ?calls
      (sample_app [] False))) = [''Pantai Parangtritis'', ''Candi Borobudur'']"
    unfolding sortedStops_def s
    by (simp add: sort_js_def sortCompare_def byDateTime_def compareAsc_def sample_stop_def
        sample_parseISO_def)
  have r: "sorted_wrt (notAfter sample_parseISO) (sortedStops sample_parseISO
      (addStops sample_parseISO sample_toNumber ?calls (sample_app [] False)))"
    using sortedStops_after_adds_nondecreasing_stable [OF e, of sample_parseISO sample_toNumber ?calls] v
    by blast
  show ?thesis by (intro conjI e g m r)
qed

subsection \<open>C9: totalCost\<close>

text \<open>
  C9, as the code has it. \<open>totalCost\<close> is the result of adding, from left to right and
  starting from 0, the cost of every stop of the collection whatever its status (a
  missing or falsy cost counting as 0), each addition being the rounded addition of
  doubles; a call of \<open>toggleStatus\<close> (with or without a target, whatever the remote store
  answers) leaves it unchanged; and when the costs are natural numbers whose sum is at
  most \<open>2^53\<close>, it is their exact sum.
\<close>

theorem totalCost_rounded_sum_and_status_invariant:
  "totalCost st =
     foldl add_number (Finite 0)
       (map (\<lambda>s. case cost s of None \<Rightarrow> Finite 0 | Some c \<Rightarrow> orZero c) (stops st)) \<and>
   totalCost (snd (toggleStatus i forceStatus r st)) = totalCost st \<and>
   (map costOrZero (stops st) = map (\<lambda>n. Finite (of_nat n)) ns \<and> sum_list ns \<le> 2 ^ 53 \<longrightarrow>
      totalCost st = Finite (of_nat (sum_list ns)) \<and>
      exact_sum (stops st) = Some (of_nat (sum_list ns)))"
proof (intro conjI impI)
  have e: "costOrZero = (\<lambda>s. case cost s of None \<Rightarrow> Finite 0 | Some c \<Rightarrow> orZero c)"
    by (rule ext) (simp add: costOrZero_def)
  have "foldl (\<lambda>acc stop. add_number acc (costOrZero stop)) a xs =
        foldl add_number a (map costOrZero xs)" for a xs
    by (induction xs arbitrary: a) simp_all
  then have "totalCost st = foldl add_number (Finite 0) (map costOrZero (stops st))"
    by (simp add: totalCost_def)
  then show "totalCost st =
     foldl add_number (Finite 0)
       (map (\<lambda>s. case cost s of None \<Rightarrow> Finite 0 | Some c \<Rightarrow> orZero c) (stops st))"
    by (simp only: e)
next
  have "foldl (\<lambda>acc stop. add_number acc (costOrZero stop)) a
          (map (\<lambda>s. if id' s = i then s\<lparr>status := nextStatus forceStatus s\<rparr> else s) xs)
        = foldl (\<lambda>acc stop. add_number acc (costOrZero stop)) a xs" for a xs
    by (induction xs arbitrary: a) (simp_all add: costOrZero_status)
  then show "totalCost (snd (toggleStatus i forceStatus r st)) = totalCost st"
    by (simp add: totalCost_def toggleStatus_def syncData_stops)
next
  assume a: "map costOrZero (stops st) = map (\<lambda>n. Finite (of_nat n)) ns \<and> sum_list ns \<le> 2 ^ 53"
  then have "foldl (\<lambda>acc stop. add_number acc (costOrZero stop)) (Finite (of_nat 0)) (stops st) =
         Finite (of_nat (0 + sum_list ns))"
    by (intro foldl_add_exact) simp_all
  then show "totalCost st = Finite (of_nat (sum_list ns))"
    by (simp add: totalCost_def)
  from a show "exact_sum (stops st) = Some (of_nat (sum_list ns))"
    by (simp add: exact_sum_nat)
qed

theorem totalCost_rounds_counterexample:
  "map cost (stops sample_costly) = [Some (Finite 9007199254740992), Some (Finite 1)] \<and>
   exact_sum (stops sample_costly) = Some 9007199254740993 \<and>
   totalCost sample_costly = Finite 9007199254740992 \<and>
   totalCost sample_costly \<noteq> Finite 9007199254740993"
proof -
  have c: "map cost (stops sample_costly) = [Some (Finite 9007199254740992), Some (Finite 1)]"
    by (simp add: sample_costly_def sample_app_def)
  then have z: "map costOrZero (stops sample_costly) = [Finite 9007199254740992, Finite 1]"
    by (simp add: costOrZero_def orZero_def list_eq_iff_nth_eq nth_Cons')
  have "exact_sum (stops sample_costly) = Some 9007199254740993"
    using z by (cases "stops sample_costly") (auto split: list.splits)
  moreover have "totalCost sample_costly = Finite 9007199254740992"
  proof -
    have "totalCost sample_costly = foldl add_number (Finite 0) (map costOrZero (stops sample_costly))"
      by (simp add: totalCost_def foldl_map)
    also have "\<dots> = add_number (add_number (Finite 0) (Finite 9007199254740992)) (Finite 1)"
      by (simp only: z) simp
    also have "add_number (Finite 0) (Finite 9007199254740992) = Finite 9007199254740992"
      using add_number_nat [of 0 9007199254740992] by simp
    also have "add_number (Finite 9007199254740992) (Finite 1) = Finite 9007199254740992"
      by (simp add: round_double_2_53_plus_1)
    finally show ?thesis .
  qed
  moreover from this have "totalCost sample_costly \<noteq> Finite 9007199254740993"
    by simp
  ultimately show ?thesis using c by blast
qed

theorem totalCost_rounded_sum_and_status_invariant_witness:
  "map costOrZero (stops sample_trip) = map (\<lambda>n. Finite (of_nat n)) [50000, 50000, 50000] \<and>
   sum_list [50000, 50000, 50000 :: nat] \<le> 2 ^ 53 \<and>
   totalCost sample_trip = Finite 150000 \<and>
   exact_sum (stops sample_trip) = Some 150000"
proof -
  have m: "map costOrZero (stops sample_trip) = map (\<lambda>n. Finite (of_nat n)) [50000, 50000, 50000]"
    by (simp add: sample_defs costOrZero_def)
  have s: "sum_list [50000, 50000, 50000 :: nat] \<le> 2 ^ 53" by simp
  from totalCost_rounded_sum_and_status_invariant [of sample_trip _ _ _ "[50000, 50000, 50000]"] m s
  have "totalCost sample_trip = Finite (of_nat (sum_list [50000, 50000, 50000])) \<and>
      exact_sum (stops sample_trip) = Some (of_nat (sum_list [50000, 50000, 50000]))"
    by blast
  then have t: "totalCost sample_trip = Finite 150000" "exact_sum (stops sample_trip) = Some 150000"
    by simp_all
  show ?thesis by (intro conjI m s t)
qed

subsection \<open>C10: online responses are cached without validation\<close>

text \<open>
  C10. Online and without a cache entry for the stop: a response with a text that is not
  empty and parses is accepted whatever the parsed value is, and so is a response with a
  missing or empty text when \<^verbatim>\<open>'{}'\<close> parses (to the empty object): the call ends normally,
  the parsed value is shown, and it is stored in the insight cache under the stop's id,
  the only effects being the request and that write. The fallback is shown with the
  cache entry still missing exactly when the request rejects or the parsed text does not
  parse. An entry of the insight cache, once there, is kept by every later call of
  \<open>fetchAiInsights\<close>, \<open>addStop\<close>, \<open>toggleStatus\<close>, \<open>deleteStop\<close> and \<open>loadData\<close>.
\<close>

theorem online_parsed_response_cached_unvalidated:
  assumes "isOnline st" and "ai_cache st (id' stop) = None"
  shows "(\<forall>t data. r = AiResponse (Some t) \<and> t \<noteq> [] \<and> JSON_parse t = Some data \<longrightarrow>
            fst (fetchAiInsights toLowerCase JSON_parse r stop st) = Normal \<and>
            aiInsights (snd (fetchAiInsights toLowerCase JSON_parse r stop st)) = data \<and>
            ai_cache (snd (fetchAiInsights toLowerCase JSON_parse r stop st)) =
              (ai_cache st)(id' stop \<mapsto> data) \<and>
            trace (snd (fetchAiInsights toLowerCase JSON_parse r stop st)) =
              trace st @ [GenerateContent (title stop) (address stop), SetItemAi (id' stop) data]) \<and>
         (\<forall>data. (r = AiResponse None \<or> r = AiResponse (Some [])) \<and> JSON_parse ''{}'' = Some data \<longrightarrow>
            fst (fetchAiInsights toLowerCase JSON_parse r stop st) = Normal \<and>
            aiInsights (snd (fetchAiInsights toLowerCase JSON_parse r stop st)) = data \<and>
            ai_cache (snd (fetchAiInsights toLowerCase JSON_parse r stop st)) =
              (ai_cache st)(id' stop \<mapsto> data) \<and>
            trace (snd (fetchAiInsights toLowerCase JSON_parse r stop st)) =
              trace st @ [GenerateContent (title stop) (address stop), SetItemAi (id' stop) data]) \<and>
         (aiInsights (snd (fetchAiInsights toLowerCase JSON_parse r stop st)) =
            getSmartFallback toLowerCase (title stop) \<and>
          ai_cache (snd (fetchAiInsights toLowerCase JSON_parse r stop st)) (id' stop) = None
            \<longleftrightarrow> (\<exists>err. r = AiRejects err) \<or>
                (\<exists>t. r = AiResponse (Some t) \<and> t \<noteq> [] \<and> JSON_parse t = None) \<or>
                ((r = AiResponse None \<or> r = AiResponse (Some [])) \<and> JSON_parse ''{}'' = None)) \<and>
         (ai_cache st' k = Some v \<longrightarrow>
            ai_cache (snd (fetchAiInsights toLowerCase JSON_parse r' stop' st')) k = Some v \<and>
            ai_cache (snd (addStop parseISO toNumber uuid formData r'' st')) k = Some v \<and>
            ai_cache (snd (toggleStatus i forceStatus r'' st')) k = Some v \<and>
            ai_cache (snd (deleteStop i r'' st')) k = Some v \<and>
            ai_cache (snd (loadData r3 st')) k = Some v)"
proof (intro conjI allI impI)
  fix t data
  assume a: "r = AiResponse (Some t) \<and> t \<noteq> [] \<and> JSON_parse t = Some data"
  then have "JSON_parse (text_or_empty_object (Some t)) = Some data"
    by (simp add: text_or_empty_object_cases)
  with assms a have "fetchAiInsights toLowerCase JSON_parse r stop st =
     (Normal, st\<lparr>aiInsights := data, isLoadingAi := False,
                 ai_cache := (ai_cache st)(id' stop \<mapsto> data),
                 trace := trace st @ [GenerateContent (title stop) (address stop),
                                      SetItemAi (id' stop) data]\<rparr>)"
    by (simp add: fetch_online_parsed)
  then show "fst (fetchAiInsights toLowerCase JSON_parse r stop st) = Normal"
    "aiInsights (snd (fetchAiInsights toLowerCase JSON_parse r stop st)) = data"
    "ai_cache (snd (fetchAiInsights toLowerCase JSON_parse r stop st)) = (ai_cache st)(id' stop \<mapsto> data)"
    "trace (snd (fetchAiInsights toLowerCase JSON_parse r stop st)) =
              trace st @ [GenerateContent (title stop) (address stop), SetItemAi (id' stop) data]"
    by simp_all
next
  fix data
  assume a: "(r = AiResponse None \<or> r = AiResponse (Some [])) \<and> JSON_parse ''{}'' = Some data"
  then obtain t where t: "r = AiResponse t" "JSON_parse (text_or_empty_object t) = Some data"
    by (auto simp add: text_or_empty_object_cases)
  with assms have "fetchAiInsights toLowerCase JSON_parse r stop st =
     (Normal, st\<lparr>aiInsights := data, isLoadingAi := False,
                 ai_cache := (ai_cache st)(id' stop \<mapsto> data),
                 trace := trace st @ [GenerateContent (title stop) (address stop),
                                      SetItemAi (id' stop) data]\<rparr>)"
    by (simp add: fetch_online_parsed)
  then show "fst (fetchAiInsights toLowerCase JSON_parse r stop st) = Normal"
    "aiInsights (snd (fetchAiInsights toLowerCase JSON_parse r stop st)) = data"
    "ai_cache (snd (fetchAiInsights toLowerCase JSON_parse r stop st)) = (ai_cache st)(id' stop \<mapsto> data)"
    "trace (snd (fetchAiInsights toLowerCase JSON_parse r stop st)) =
              trace st @ [GenerateContent (title stop) (address stop), SetItemAi (id' stop) data]"
    by simp_all
next
  have e: "((\<exists>err. r = AiRejects err) \<or>
                (\<exists>t. r = AiResponse (Some t) \<and> t \<noteq> [] \<and> JSON_parse t = None) \<or>
                ((r = AiResponse None \<or> r = AiResponse (Some [])) \<and> JSON_parse ''{}'' = None))
        \<longleftrightarrow> ((\<exists>err. r = AiRejects err) \<or>
                (\<exists>t. r = AiResponse t \<and> JSON_parse (text_or_empty_object t) = None))"
  proof (cases r)
    case (AiRejects e)
    then show ?thesis by simp
  next
    case (AiResponse t)
    show ?thesis
    proof (cases t)
      case None
      with AiResponse show ?thesis by (simp add: text_or_empty_object_cases)
    next
      case (Some t')
      with AiResponse show ?thesis
        by (cases "t' = []") (simp_all add: text_or_empty_object_cases)
    qed
  qed
  have "(aiInsights (snd (fetchAiInsights toLowerCase JSON_parse r stop st)) =
            getSmartFallback toLowerCase (title stop) \<and>
          ai_cache (snd (fetchAiInsights toLowerCase JSON_parse r stop st)) (id' stop) = None)
            \<longleftrightarrow> ((\<exists>err. r = AiRejects err) \<or>
                (\<exists>t. r = AiResponse t \<and> JSON_parse (text_or_empty_object t) = None))"
  proof (cases r)
    case (AiRejects e)
    with assms show ?thesis by (simp add: fetch_online_rejects)
  next
    case (AiResponse t)
    with assms show ?thesis
      by (cases "JSON_parse (text_or_empty_object t)")
         (simp_all add: fetch_online_unparsed fetch_online_parsed)
  qed
  then show "(aiInsights (snd (fetchAiInsights toLowerCase JSON_parse r stop st)) =
            getSmartFallback toLowerCase (title stop) \<and>
          ai_cache (snd (fetchAiInsights toLowerCase JSON_parse r stop st)) (id' stop) = None)
            \<longleftrightarrow> ((\<exists>err. r = AiRejects err) \<or>
                (\<exists>t. r = AiResponse (Some t) \<and> t \<noteq> [] \<and> JSON_parse t = None) \<or>
                ((r = AiResponse None \<or> r = AiResponse (Some [])) \<and> JSON_parse ''{}'' = None))"
    by (simp only: e)
next
  assume k: "ai_cache st' k = Some v"
  then show "ai_cache (snd (fetchAiInsights toLowerCase JSON_parse r' stop' st')) k = Some v"
    by (rule fetch_keeps_entries)
  from k show "ai_cache (snd (addStop parseISO toNumber uuid formData r'' st')) k = Some v"
    by (simp add: addStop_syncData(1) syncData_ai_cache)
  from k show "ai_cache (snd (toggleStatus i forceStatus r'' st')) k = Some v"
    by (simp add: toggleStatus_def syncData_ai_cache)
  from k show "ai_cache (snd (deleteStop i r'' st')) k = Some v"
    by (simp add: deleteStop_ai_cache)
  from k show "ai_cache (snd (loadData r3 st')) k = Some v"
    by (simp add: loadData_ai_cache)
qed

theorem online_parsed_response_cached_unvalidated_witness:
  "isOnline (sample_app [] True) \<and>
   ai_cache (sample_app [] True) (id' sample_pantai) = None \<and>
   sample_tips_text \<noteq> [] \<and>
   sample_JSON_parse sample_tips_text = Some (JObj [(''tips'', JStr ''Datang pagi'')]) \<and>
   aiInsights (snd (fetchAiInsights sample_toLowerCase sample_JSON_parse
      (AiResponse (Some sample_tips_text)) sample_pantai (sample_app [] True)))
     = JObj [(''tips'', JStr ''Datang pagi'')] \<and>
   ai_cache (snd (fetchAiInsights sample_toLowerCase sample_JSON_parse
      (AiResponse (Some sample_tips_text)) sample_pantai (sample_app [] True)))
     = [''b'' \<mapsto> JObj [(''tips'', JStr ''Datang pagi'')]] \<and>
   sample_JSON_parse ''{}'' = Some (JObj []) \<and>
   aiInsights (snd (fetchAiInsights sample_toLowerCase sample_JSON_parse (AiResponse None)
      sample_pantai (sample_app [] True))) = JObj [] \<and>
   ai_cache (snd (fetchAiInsights sample_toLowerCase sample_JSON_parse (AiResponse None)
      sample_pantai (sample_app [] True))) = [''b'' \<mapsto> JObj []] \<and>
   ai_cache (snd (deleteStop ''b'' (Resolves None None)
      (snd (fetchAiInsights sample_toLowerCase sample_JSON_parse (AiResponse None) sample_pantai
         (sample_app [] True))))) ''b'' = Some (JObj [])"
proof -
  let ?s = sample_pantai
  let ?L = sample_toLowerCase
  let ?d = "JObj [(''tips'', JStr ''Datang pagi'')]"
  let ?st = "snd (fetchAiInsights ?L sample_JSON_parse (AiResponse None) ?s (sample_app [] True))"
  have t: "id' ?s = ''b''"
    by (simp add: sample_pantai_def sample_stop_def)
  have on: "isOnline (sample_app [] True)" by (simp add: sample_app_def)
  have n: "ai_cache (sample_app [] True) (id' ?s) = None" by (simp add: sample_app_def)
  have ne: "sample_tips_text \<noteq> []" by (simp add: sample_tips_text_def)
  have p: "sample_JSON_parse sample_tips_text = Some ?d"
    by (simp add: sample_JSON_parse_def sample_tips_text_def)
  have q: "sample_JSON_parse ''{}'' = Some (JObj [])"
    by (simp add: sample_JSON_parse_def)
  note th = online_parsed_response_cached_unvalidated
    [OF on n, where JSON_parse = sample_JSON_parse and toLowerCase = ?L]
  have d0: "aiInsights (snd (fetchAiInsights ?L sample_JSON_parse (AiResponse (Some sample_tips_text))
        ?s (sample_app [] True))) = ?d \<and>
      ai_cache (snd (fetchAiInsights ?L sample_JSON_parse (AiResponse (Some sample_tips_text))
        ?s (sample_app [] True))) = (ai_cache (sample_app [] True))(id' ?s \<mapsto> ?d)"
    using th [of "AiResponse (Some sample_tips_text)"] ne p by blast
  then have d1: "ai_cache (snd (fetchAiInsights ?L sample_JSON_parse (AiResponse (Some sample_tips_text))
        ?s (sample_app [] True))) = [''b'' \<mapsto> ?d]"
    by (simp add: t sample_app_def)
  have 1: "aiInsights ?st = JObj [] \<and> ai_cache ?st = (ai_cache (sample_app [] True))(id' ?s \<mapsto> JObj [])"
    using th [of "AiResponse None"] q by blast
  then have 2: "ai_cache ?st = [''b'' \<mapsto> JObj []]"
    by (simp add: t sample_app_def)
  then have "ai_cache ?st ''b'' = Some (JObj [])" by simp
  with th [of "AiResponse None" ?st "''b''" "JObj []"]
  have 3: "ai_cache (snd (deleteStop ''b'' (Resolves None None) ?st)) ''b'' = Some (JObj [])"
    by blast
  show ?thesis by (intro conjI on n ne p conjunct1 [OF d0] d1 q conjunct1 [OF 1] 2 3)
qed

end
